theory Spec2Isabelle
  imports Main
begin

section \<open>Data model of main.go\<close>

text \<open>
  The program is a linear pipeline over six package-level variables. Everything it does
  beyond assigning them is an effect on the outside: it starts commands, reads one file
  and prints. The model passes a state that holds the six variables, the outside world
  and the list of effects performed so far, in order.
\<close>

type_synonym argv = "string list"

text \<open>The error values that the source creates or receives.\<close>

datatype error =
    ErrorsNew string \<comment> \<open>\<open>errors.New(msg)\<close>\<close>
  | ErrUserAborted \<comment> \<open>the error of \<open>form.Run()\<close>\<close>
  | ExecError argv \<comment> \<open>the error of \<open>exec.Command(...).Run()\<close>\<close>
  | PathError string \<comment> \<open>the error of \<open>os.ReadFile(path)\<close>\<close>

text \<open>The four lipgloss styles declared by the source, and a text handed to \<open>fmt\<close>.\<close>

datatype style = successColor | warningColor | errorColor | infoColor

datatype printed = Plain string | Render style "string list"

datatype event =
    Exec argv bool \<comment> \<open>a command was run; the flag tells whether \<open>Run()\<close> returned nil\<close>
  | ReadFile string "string option" \<comment> \<open>\<open>os.ReadFile(path)\<close> and what it returned\<close>
  | Print printed \<comment> \<open>\<open>fmt.Print\<close>\<close>
  | Println printed \<comment> \<open>\<open>fmt.Println\<close>\<close>
  | LogFatal error \<comment> \<open>\<open>log.Fatal(err)\<close>: prints the error, then \<open>os.Exit(1)\<close>\<close>

record globals =
  gitContext :: string
  username :: string
  email :: string
  ignoreSSH :: bool
  sshPath :: string
  signing :: bool

record 'w state = globals +
  world :: 'w
  trace :: "event list"

text \<open>
  The outside: the result of \<open>user.Current()\<close> (the home directory, or \<open>None\<close> when
  the lookup returns a nil user and an error), how a command changes the world and whether
  it succeeds, and what reading a file returns.
\<close>

record 'w env =
  user_Current :: "string option"
  cmd_Run :: "argv \<Rightarrow> 'w \<Rightarrow> bool \<times> 'w"
  os_ReadFile :: "string \<Rightarrow> 'w \<Rightarrow> string option"

text \<open>How the process ends.\<close>

datatype outcome =
    Exit0 \<comment> \<open>\<open>main\<close> returns: exit status 0\<close>
  | Exit1 \<comment> \<open>\<open>log.Fatal\<close>: exit status 1\<close>
  | RuntimePanic \<comment> \<open>nil pointer dereference: the runtime aborts, exit status 2\<close>

text \<open>A call either returns a value or dies dereferencing a nil pointer.\<close>

datatype 'a go = NilDereference | Return 'a

text \<open>The state at the start of \<open>main\<close>: Go's zero values, and nothing done yet.\<close>

definition init :: "'w \<Rightarrow> 'w state" where
  "init w0 = \<lparr>gitContext = [], username = [], email = [], ignoreSSH = False,
     sshPath = [], signing = False, world = w0, trace = []\<rparr>"

section \<open>Printing\<close>

definition emit :: "event \<Rightarrow> 'w state \<Rightarrow> 'w state" where
  "emit e s = s\<lparr>trace := trace s @ [e]\<rparr>"

definition check_mark :: string where
  "check_mark = [CHR 0xE2, CHR 0x9C, CHR 0x93, CHR '' '']"

definition success :: "string list \<Rightarrow> 'w state \<Rightarrow> 'w state" where
  "success msg s =
     emit (Println (Render successColor msg)) (emit (Print (Render successColor [check_mark])) s)"

definition warning :: "string list \<Rightarrow> 'w state \<Rightarrow> 'w state" where
  "warning msg s = emit (Println (Render warningColor msg)) s"

definition panic :: "error \<Rightarrow> 'w state \<Rightarrow> outcome \<times> 'w state" where
  "panic err s =
     (Exit1, emit (LogFatal err)
        (emit (Println (Render errorColor [''! Fatal Error !'' @ [CHR 0x0A]])) s))"

section \<open>The form\<close>

text \<open>The two validators of \<open>promptForm\<close>; \<open>None\<close> is Go's nil error.\<close>

fun strings_Contains :: "string \<Rightarrow> string \<Rightarrow> bool" where
  "strings_Contains [] substr = (substr = [])"
| "strings_Contains (c # s) substr =
     (take (length substr) (c # s) = substr \<or> strings_Contains s substr)"

definition validate_username :: "string \<Rightarrow> error option" where
  "validate_username str =
     (if str = [] then Some (ErrorsNew ''Username Required'') else None)"

definition validate_email :: "string \<Rightarrow> error option" where
  "validate_email str =
     (if \<not> strings_Contains str ''@'' \<or> \<not> strings_Contains str ''.''
      then Some (ErrorsNew ''Not valid email address'') else None)"

text \<open>
  The options of the three selects with the values the source binds to them, and what
  the person at the terminal does: the option picked in each select, the texts submitted
  to each validated input one after the other (the form keeps an input until its
  validator returns nil; when the submissions run out the person has given up), the text
  that replaces the pre-filled key path (\<open>None\<close> keeps it; this input has no
  validator, so any text is accepted, the empty one too), and whether the person cancels
  the form. When the form returns an error, \<open>main\<close> ends at once, so the values the
  form had written by then are left out.
\<close>

datatype scope_option = Global_Recommended | Local_Not_Recommended

datatype ssh_option = Yes | No

datatype signing_option = Signing_None | Signing_SSH

fun scope_value :: "scope_option \<Rightarrow> string" where
  "scope_value Global_Recommended = ''--global''"
| "scope_value Local_Not_Recommended = ''--local''"

fun ssh_value :: "ssh_option \<Rightarrow> bool" where
  "ssh_value Yes = False"
| "ssh_value No = True"

fun signing_value :: "signing_option \<Rightarrow> bool" where
  "signing_value Signing_None = False"
| "signing_value Signing_SSH = True"

record user =
  select_gitContext :: scope_option
  input_username :: "string list"
  input_email :: "string list"
  select_ignoreSSH :: ssh_option
  input_sshPath :: "string option"
  select_signing :: signing_option
  cancels :: bool

definition submit :: "(string \<Rightarrow> error option) \<Rightarrow> string list \<Rightarrow> string option" where
  "submit validate attempts = find (\<lambda>str. validate str = None) attempts"

definition form_Run :: "user \<Rightarrow> 'w state \<Rightarrow> error option \<times> 'w state" where
  "form_Run U s =
     (case submit validate_username (input_username U) of
        None \<Rightarrow> (Some ErrUserAborted, s)
      | Some name \<Rightarrow>
          (case submit validate_email (input_email U) of
             None \<Rightarrow> (Some ErrUserAborted, s)
           | Some mail \<Rightarrow>
               if cancels U then (Some ErrUserAborted, s)
               else (None, s\<lparr>gitContext := scope_value (select_gitContext U),
                            username := name,
                            email := mail,
                            ignoreSSH := ssh_value (select_ignoreSSH U),
                            sshPath := (case input_sshPath U of None \<Rightarrow> sshPath s | Some p \<Rightarrow> p),
                            signing := signing_value (select_signing U)\<rparr>)))"

definition promptForm :: "'w env \<Rightarrow> user \<Rightarrow> 'w state \<Rightarrow> (error option \<times> 'w state) go" where
  "promptForm E U s =
     (case user_Current E of
        None \<Rightarrow> NilDereference
      | Some homeDir \<Rightarrow> Return (form_Run U (s\<lparr>sshPath := homeDir @ ''/.ssh/id_ed25519''\<rparr>)))"

section \<open>The steps\<close>

text \<open>
  \<open>exec.Command(args...).Run()\<close>: the command changes the world and its result is
  recorded; the error returned is nil exactly when the command succeeded. Each step below
  follows its source function statement by statement, \<open>err\<close> being the error that the
  source tests after each call.
\<close>

definition exec_Command :: "'w env \<Rightarrow> argv \<Rightarrow> 'w state \<Rightarrow> error option \<times> 'w state" where
  "exec_Command E args s =
     (case cmd_Run E args (world s) of
        (ok, w') \<Rightarrow>
          (if ok then None else Some (ExecError args),
           s\<lparr>world := w', trace := trace s @ [Exec args ok]\<rparr>))"

definition setupGit :: "'w env \<Rightarrow> 'w state \<Rightarrow> error option \<times> 'w state" where
  "setupGit E s =
     (case exec_Command E [''git'', ''config'', gitContext s, ''user.name'', username s] s of
        (err, s1) \<Rightarrow>
          if err \<noteq> None then (err, s1)
          else let s2 = success [''Successfully set git username''] s1 in
            (case exec_Command E
                    [''git'', ''config'', gitContext s2, ''user.email'', username s2] s2 of
               (err, s3) \<Rightarrow>
                 if err \<noteq> None then (err, s3)
                 else (None, success [''Successfully set git email''] s3)))"

definition generateSSH :: "'w env \<Rightarrow> 'w state \<Rightarrow> error option \<times> 'w state" where
  "generateSSH E s =
     (case exec_Command E
             [''ssh-keygen'', ''-t'', ''ed25519'', ''-f'', sshPath s, ''-C'', email s] s of
        (err, s1) \<Rightarrow>
          if err \<noteq> None then (Some (ErrorsNew ''Failed while generating SSH key''), s1)
          else (None, success [''Successfully generated ssh key''] s1))"

definition ssh_add_warning :: string where
  "ssh_add_warning =
     ''Warning Failed to add SSH key using `ssh-add`'' @ [CHR 0x0A] @
     ''This can happen if the key is already added. If it isn't, try running `ssh-add %s''"

definition setupSSH :: "'w env \<Rightarrow> 'w state \<Rightarrow> error option \<times> 'w state" where
  "setupSSH E s =
     (case generateSSH E s of
        (err, s1) \<Rightarrow>
          if err \<noteq> None then (err, s1)
          else (case exec_Command E [''ssh-add'', sshPath s1] s1 of
                  (err, s2) \<Rightarrow>
                    (None, if err \<noteq> None then warning [ssh_add_warning, sshPath s2] s2 else s2)))"

definition setupSigning :: "'w env \<Rightarrow> 'w state \<Rightarrow> error option \<times> 'w state" where
  "setupSigning E s =
     (case (if ignoreSSH s then generateSSH E s else (None, s)) of
        (err, s1) \<Rightarrow>
          if err \<noteq> None then (err, s1)
          else (case exec_Command E [''git'', ''config'', gitContext s1, ''gpg.format'', ''ssh''] s1 of
            (err, s2) \<Rightarrow>
              if err \<noteq> None then (err, s2)
              else let s3 = success [''Successfully set git signing type''] s2 in
                (case exec_Command E
                        [''git'', ''config'', gitContext s3, ''user.signingkey'', sshPath s3] s3 of
                   (err, s4) \<Rightarrow>
                     if err \<noteq> None then (err, s4)
                     else let s5 = success [''Successfully set git signing key''] s4 in
                       (case exec_Command E
                               [''git'', ''config'', gitContext s5, ''commit.gpgsign'', ''true''] s5 of
                          (err, s6) \<Rightarrow>
                            if err \<noteq> None then (err, s6)
                            else (None,
                              success [''Successfully set git to sign commits by default''] s6)))))"

definition summary_lines :: "string \<Rightarrow> printed list" where
  "summary_lines pub =
     [Render infoColor [[CHR 0x0A] @ ''Almost Done!''],
      Plain ''If you're using github, navigate to `https://github.com/settings/keys` and press `New SSH key`'',
      Plain ''If you set up SSH, set `Key type` to `Authentication Key`'',
      Plain ''If you set up Signing, set `Key type` to `Signing Key`'',
      Plain (''You have to create seperate keys on github, but can use the same key on your machine''
               @ [CHR 0x0A]),
      Plain ''Key:'',
      Render infoColor [pub],
      Plain ([CHR 0x0A] @
        ''If you setup SSH, to avoid re-typing ssh key to push, it is recommended to add `ssh-agent` to your command line settings''),
      Render infoColor [''eval \"$(ssh-agent -s)\"'']]"

definition almostDone :: "'w env \<Rightarrow> 'w state \<Rightarrow> error option \<times> 'w state" where
  "almostDone E s =
     (let path = sshPath s @ ''.pub'';
          r = os_ReadFile E path (world s);
          s1 = emit (ReadFile path r) s
      in case r of
           None \<Rightarrow> (Some (PathError path), s1)
         | Some pub \<Rightarrow> (None, s1\<lparr>trace := trace s1 @ map Println (summary_lines pub)\<rparr>))"

definition main :: "'w env \<Rightarrow> user \<Rightarrow> 'w \<Rightarrow> outcome \<times> 'w state" where
  "main E U w0 =
     (case promptForm E U (init w0) of
        NilDereference \<Rightarrow> (RuntimePanic, init w0)
      | Return (err, s1) \<Rightarrow>
     (case err of Some e \<Rightarrow> panic e s1 | None \<Rightarrow>
     (case setupGit E s1 of (err, s2) \<Rightarrow>
     (case err of Some e \<Rightarrow> panic e s2 | None \<Rightarrow>
     (case (if \<not> ignoreSSH s2 then setupSSH E s2 else (None, s2)) of (err, s3) \<Rightarrow>
     (case err of Some e \<Rightarrow> panic e s3 | None \<Rightarrow>
     (case (if signing s3 then setupSigning E s3 else (None, s3)) of (err, s4) \<Rightarrow>
     (case err of Some e \<Rightarrow> panic e s4 | None \<Rightarrow>
       let s5 = s4\<lparr>sshPath := ''/home/mason/.ssh/id_ed25519''\<rparr> in
       if \<not> ignoreSSH s5 \<or> signing s5 then (Exit0, snd (almostDone E s5))
       else (Exit0, success [''Finished!''] s5)))))))))"

section \<open>What a run did\<close>

text \<open>
  Observations on the list of effects: the commands that were run with their results,
  the files that were read, and the kinds of command the program issues.
\<close>

fun execs :: "event list \<Rightarrow> (argv \<times> bool) list" where
  "execs [] = []"
| "execs (Exec a ok # es) = (a, ok) # execs es"
| "execs (e # es) = execs es"

fun reads :: "event list \<Rightarrow> (string \<times> string option) list" where
  "reads [] = []"
| "reads (ReadFile p r # es) = (p, r) # reads es"
| "reads (e # es) = reads es"

definition commands :: "event list \<Rightarrow> argv list" where
  "commands t = map fst (execs t)"

definition is_git_config :: "argv \<Rightarrow> bool" where
  "is_git_config a = (take 2 a = [''git'', ''config''])"

definition is_keygen :: "argv \<Rightarrow> bool" where
  "is_keygen a = (take 1 a = [''ssh-keygen''])"

definition is_ssh_add :: "argv \<Rightarrow> bool" where
  "is_ssh_add a = (take 1 a = [''ssh-add''])"

definition is_signing_write :: "argv \<Rightarrow> bool" where
  "is_signing_write a =
     (is_git_config a \<and> length a = 5 \<and>
      a ! 3 \<in> set [''gpg.format'', ''user.signingkey'', ''commit.gpgsign''])"

definition keygens :: "event list \<Rightarrow> argv list" where
  "keygens t = filter is_keygen (commands t)"

definition git_failures :: "(argv \<times> bool) list \<Rightarrow> (argv \<times> bool) list" where
  "git_failures X = filter (\<lambda>c. is_git_config (fst c) \<and> \<not> snd c) X"

definition agent_failures :: "(argv \<times> bool) list \<Rightarrow> (argv \<times> bool) list" where
  "agent_failures X = filter (\<lambda>c. is_ssh_add (fst c) \<and> \<not> snd c) X"

text \<open>
  Names for the pieces that the lemmas below are stated with: whether a command succeeds
  in a world and the world it leaves, a state moved on to a later world with more effects
  appended, the two lines of \<open>success\<close>, the two lines of \<open>panic\<close>, the argument
  vectors of the commands, and the path that \<open>main\<close> assigns before the summary.
\<close>

definition cmd_ok :: "'w env \<Rightarrow> argv \<Rightarrow> 'w \<Rightarrow> bool" where
  "cmd_ok E a w = fst (cmd_Run E a w)"

definition cmd_world :: "'w env \<Rightarrow> argv \<Rightarrow> 'w \<Rightarrow> 'w" where
  "cmd_world E a w = snd (cmd_Run E a w)"

definition advance :: "'w \<Rightarrow> event list \<Rightarrow> 'w state \<Rightarrow> 'w state" where
  "advance w t s = s\<lparr>world := w, trace := trace s @ t\<rparr>"

definition success_events :: "string \<Rightarrow> event list" where
  "success_events m =
     [Print (Render successColor [check_mark]), Println (Render successColor [m])]"

definition panic_events :: "error \<Rightarrow> event list" where
  "panic_events e =
     [Println (Render errorColor [''! Fatal Error !'' @ [CHR 0x0A]]), LogFatal e]"

definition git_argv :: "'w state \<Rightarrow> string \<Rightarrow> string \<Rightarrow> argv" where
  "git_argv s key v = [''git'', ''config'', gitContext s, key, v]"

definition keygen_argv :: "'w state \<Rightarrow> argv" where
  "keygen_argv s = [''ssh-keygen'', ''-t'', ''ed25519'', ''-f'', sshPath s, ''-C'', email s]"

definition ssh_add_argv :: "'w state \<Rightarrow> argv" where
  "ssh_add_argv s = [''ssh-add'', sshPath s]"

definition signing_keygen_events :: "'w state \<Rightarrow> event list" where
  "signing_keygen_events s =
     (if ignoreSSH s
      then [Exec (keygen_argv s) True] @ success_events ''Successfully generated ssh key''
      else [])"

definition all_commands :: "'w state \<Rightarrow> argv list" where
  "all_commands s =
     [git_argv s ''user.name'' (username s), git_argv s ''user.email'' (username s),
      keygen_argv s, ssh_add_argv s,
      git_argv s ''gpg.format'' ''ssh'', git_argv s ''user.signingkey'' (sshPath s),
      git_argv s ''commit.gpgsign'' ''true'']"

definition hard_coded_path :: string where
  "hard_coded_path = ''/home/mason/.ssh/id_ed25519''"

definition default_path :: "string \<Rightarrow> string" where
  "default_path homeDir = homeDir @ ''/.ssh/id_ed25519''"

section \<open>Concrete machines and users\<close>

text \<open>
  A machine whose world is its files. A command either works or fails, as \<open>works\<close>
  says; a working \<open>ssh-keygen\<close> writes the private key to the path after \<open>-f\<close> and
  the public key, ending in the comment, beside it. Alice first submits an empty username
  and an email without \<open>@\<close>, then valid ones; she keeps the first option of every select
  and the pre-filled key path. Mason's machine state is one file, his public key.
\<close>

type_synonym files = "(string \<times> string) list"

definition ssh_keygen :: "argv \<Rightarrow> files \<Rightarrow> files" where
  "ssh_keygen a fs =
     (case a of
        [c, t, alg, f, path, C, comment] \<Rightarrow>
          if c = ''ssh-keygen''
          then (path @ ''.pub'', ''ssh-ed25519 AAAAC3Nz '' @ comment @ [CHR 0x0A]) #
               (path, ''PRIVATE KEY'') # fs
          else fs
      | _ \<Rightarrow> fs)"

definition machine :: "string option \<Rightarrow> (argv \<Rightarrow> bool) \<Rightarrow> files env" where
  "machine home works =
     \<lparr>user_Current = home,
      cmd_Run = (\<lambda>a fs. if works a then (True, ssh_keygen a fs) else (False, fs)),
      os_ReadFile = (\<lambda>p fs. map_of fs p)\<rparr>"

definition alice :: user where
  "alice =
     \<lparr>select_gitContext = Global_Recommended,
      input_username = [[], ''alice''],
      input_email = [''alice'', ''alice@example.com''],
      select_ignoreSSH = Yes,
      input_sshPath = None,
      select_signing = Signing_None,
      cancels = False\<rparr>"

definition mason_key :: string where
  "mason_key = ''ssh-ed25519 AAAAC3Nz mason@laptop'' @ [CHR 0x0A]"

definition mason_files :: files where
  "mason_files = [(''/home/mason/.ssh/id_ed25519.pub'', mason_key)]"

definition alice_home :: "string option" where
  "alice_home = Some ''/home/alice''"

definition all_work :: "argv \<Rightarrow> bool" where
  "all_work a = True"

definition git_broken :: "argv \<Rightarrow> bool" where
  "git_broken a = (\<not> is_git_config a)"

definition no_agent_no_signing :: "argv \<Rightarrow> bool" where
  "no_agent_no_signing a = (\<not> is_ssh_add a \<and> \<not> is_signing_write a)"

definition no_agent :: "argv \<Rightarrow> bool" where
  "no_agent a = (\<not> is_ssh_add a)"

definition no_signing_key :: "argv \<Rightarrow> bool" where
  "no_signing_key a = (\<not> (is_git_config a \<and> length a = 5 \<and> a ! 3 = ''user.signingkey''))"

section \<open>The steps, flattened\<close>

text \<open>
  No step changes any of the six variables, so each step equals a decision on the command
  results whose leaves are the entry state moved on by an explicit list of effects.
\<close>

lemma advance_simps [simp]:
  "gitContext (advance w t s) = gitContext s"
  "username (advance w t s) = username s"
  "email (advance w t s) = email s"
  "ignoreSSH (advance w t s) = ignoreSSH s"
  "sshPath (advance w t s) = sshPath s"
  "signing (advance w t s) = signing s"
  "world (advance w t s) = w"
  "trace (advance w t s) = trace s @ t"
  "advance w' t' (advance w t s) = advance w' (t @ t') s"
  "keygen_argv (advance w t s) = keygen_argv s"
  "ssh_add_argv (advance w t s) = ssh_add_argv s"
  "git_argv (advance w t s) = git_argv s"
  by (simp_all add: advance_def keygen_argv_def ssh_add_argv_def git_argv_def fun_eq_iff)

lemma advance_sshPath:
  "(advance w t s)\<lparr>sshPath := p\<rparr> = advance w t (s\<lparr>sshPath := p\<rparr>)"
  by (simp add: advance_def)

lemma exec_Command_flat:
  "exec_Command E a s =
     (if cmd_ok E a (world s) then None else Some (ExecError a),
      advance (cmd_world E a (world s)) [Exec a (cmd_ok E a (world s))] s)"
  by (simp add: exec_Command_def cmd_ok_def cmd_world_def advance_def split_beta)

lemma success_advance [simp]:
  "success [m] (advance w t s) = advance w (t @ success_events m) s"
  by (simp add: success_def emit_def advance_def success_events_def)

lemma success_flat: "success [m] s = advance (world s) (success_events m) s"
  by (simp add: success_def emit_def advance_def success_events_def)

lemma warning_advance [simp]:
  "warning m (advance w t s) = advance w (t @ [Println (Render warningColor m)]) s"
  by (simp add: warning_def emit_def advance_def)

lemma panic_flat: "panic e s = (Exit1, advance (world s) (panic_events e) s)"
  by (simp add: panic_def emit_def advance_def panic_events_def)

lemma setupGit_flat:
  "setupGit E s =
    (let a1 = git_argv s ''user.name'' (username s);
         a2 = git_argv s ''user.email'' (username s);
         w1 = cmd_world E a1 (world s); w2 = cmd_world E a2 w1 in
     if \<not> cmd_ok E a1 (world s) then (Some (ExecError a1), advance w1 [Exec a1 False] s)
     else if \<not> cmd_ok E a2 w1
     then (Some (ExecError a2),
           advance w2 ([Exec a1 True] @ success_events ''Successfully set git username'' @
                       [Exec a2 False]) s)
     else (None,
           advance w2 ([Exec a1 True] @ success_events ''Successfully set git username'' @
                       [Exec a2 True] @ success_events ''Successfully set git email'') s))"
  by (simp add: setupGit_def exec_Command_flat Let_def git_argv_def)

lemma generateSSH_flat:
  "generateSSH E s =
    (let a = keygen_argv s; w1 = cmd_world E a (world s) in
     if \<not> cmd_ok E a (world s)
     then (Some (ErrorsNew ''Failed while generating SSH key''), advance w1 [Exec a False] s)
     else (None, advance w1 ([Exec a True] @ success_events ''Successfully generated ssh key'') s))"
  by (simp add: generateSSH_def exec_Command_flat Let_def keygen_argv_def)

lemma setupSSH_flat:
  "setupSSH E s =
    (let a = keygen_argv s; b = ssh_add_argv s;
         w1 = cmd_world E a (world s); w2 = cmd_world E b w1 in
     if \<not> cmd_ok E a (world s)
     then (Some (ErrorsNew ''Failed while generating SSH key''), advance w1 [Exec a False] s)
     else if \<not> cmd_ok E b w1
     then (None,
           advance w2 ([Exec a True] @ success_events ''Successfully generated ssh key'' @
                       [Exec b False,
                        Println (Render warningColor [ssh_add_warning, sshPath s])]) s)
     else (None,
           advance w2 ([Exec a True] @ success_events ''Successfully generated ssh key'' @
                       [Exec b True]) s))"
  by (simp add: setupSSH_def generateSSH_flat exec_Command_flat Let_def ssh_add_argv_def)

lemma signing_keygen_events_advance [simp]:
  "signing_keygen_events (advance w t s) = signing_keygen_events s"
  by (simp add: signing_keygen_events_def)

lemma setupSigning_flat:
  "setupSigning E s =
    (let k = keygen_argv s;
         c1 = git_argv s ''gpg.format'' ''ssh'';
         c2 = git_argv s ''user.signingkey'' (sshPath s);
         c3 = git_argv s ''commit.gpgsign'' ''true'';
         pre = signing_keygen_events s;
         w0 = (if ignoreSSH s then cmd_world E k (world s) else world s);
         w1 = cmd_world E c1 w0; w2 = cmd_world E c2 w1; w3 = cmd_world E c3 w2 in
     if ignoreSSH s \<and> \<not> cmd_ok E k (world s)
     then (Some (ErrorsNew ''Failed while generating SSH key''), advance w0 [Exec k False] s)
     else if \<not> cmd_ok E c1 w0
     then (Some (ExecError c1), advance w1 (pre @ [Exec c1 False]) s)
     else if \<not> cmd_ok E c2 w1
     then (Some (ExecError c2),
           advance w2 (pre @ [Exec c1 True] @
             success_events ''Successfully set git signing type'' @ [Exec c2 False]) s)
     else if \<not> cmd_ok E c3 w2
     then (Some (ExecError c3),
           advance w3 (pre @ [Exec c1 True] @
             success_events ''Successfully set git signing type'' @ [Exec c2 True] @
             success_events ''Successfully set git signing key'' @ [Exec c3 False]) s)
     else (None,
           advance w3 (pre @ [Exec c1 True] @
             success_events ''Successfully set git signing type'' @ [Exec c2 True] @
             success_events ''Successfully set git signing key'' @ [Exec c3 True] @
             success_events ''Successfully set git to sign commits by default'') s))"
proof (cases "ignoreSSH s")
  case True
  then show ?thesis
    by (simp add: setupSigning_def generateSSH_flat exec_Command_flat Let_def git_argv_def
          signing_keygen_events_def)
next
  case False
  then show ?thesis
    by (simp add: setupSigning_def exec_Command_flat Let_def git_argv_def
          signing_keygen_events_def)
qed

lemma setupGit_shape:
  assumes "setupGit E s = (err, s')"
  shows
    "(err = Some (ExecError (git_argv s ''user.name'' (username s))) \<and>
      (\<exists>w. s' = advance w [Exec (git_argv s ''user.name'' (username s)) False] s)) \<or>
     (err = Some (ExecError (git_argv s ''user.email'' (username s))) \<and>
      (\<exists>w. s' = advance w ([Exec (git_argv s ''user.name'' (username s)) True] @
            success_events ''Successfully set git username'' @
            [Exec (git_argv s ''user.email'' (username s)) False]) s)) \<or>
     (err = None \<and>
      (\<exists>w. s' = advance w ([Exec (git_argv s ''user.name'' (username s)) True] @
            success_events ''Successfully set git username'' @
            [Exec (git_argv s ''user.email'' (username s)) True] @
            success_events ''Successfully set git email'') s))"
  using assms unfolding setupGit_flat Let_def
  by (simp split: if_splits) blast+

lemma setupSSH_shape:
  assumes "setupSSH E s = (err, s')"
  shows
    "(err = Some (ErrorsNew ''Failed while generating SSH key'') \<and>
      (\<exists>w. s' = advance w [Exec (keygen_argv s) False] s)) \<or>
     (err = None \<and>
      (\<exists>w. s' = advance w ([Exec (keygen_argv s) True] @
            success_events ''Successfully generated ssh key'' @
            [Exec (ssh_add_argv s) False,
             Println (Render warningColor [ssh_add_warning, sshPath s])]) s)) \<or>
     (err = None \<and>
      (\<exists>w. s' = advance w ([Exec (keygen_argv s) True] @
            success_events ''Successfully generated ssh key'' @
            [Exec (ssh_add_argv s) True]) s))"
  using assms unfolding setupSSH_flat Let_def
  by (simp split: if_splits) blast+

lemma setupSigning_shape:
  assumes "setupSigning E s = (err, s')"
  shows
    "(ignoreSSH s \<and> err = Some (ErrorsNew ''Failed while generating SSH key'') \<and>
      (\<exists>w. s' = advance w [Exec (keygen_argv s) False] s)) \<or>
     (err = Some (ExecError (git_argv s ''gpg.format'' ''ssh'')) \<and>
      (\<exists>w. s' = advance w (signing_keygen_events s @
            [Exec (git_argv s ''gpg.format'' ''ssh'') False]) s)) \<or>
     (err = Some (ExecError (git_argv s ''user.signingkey'' (sshPath s))) \<and>
      (\<exists>w. s' = advance w (signing_keygen_events s @
            [Exec (git_argv s ''gpg.format'' ''ssh'') True] @
            success_events ''Successfully set git signing type'' @
            [Exec (git_argv s ''user.signingkey'' (sshPath s)) False]) s)) \<or>
     (err = Some (ExecError (git_argv s ''commit.gpgsign'' ''true'')) \<and>
      (\<exists>w. s' = advance w (signing_keygen_events s @
            [Exec (git_argv s ''gpg.format'' ''ssh'') True] @
            success_events ''Successfully set git signing type'' @
            [Exec (git_argv s ''user.signingkey'' (sshPath s)) True] @
            success_events ''Successfully set git signing key'' @
            [Exec (git_argv s ''commit.gpgsign'' ''true'') False]) s)) \<or>
     (err = None \<and>
      (\<exists>w. s' = advance w (signing_keygen_events s @
            [Exec (git_argv s ''gpg.format'' ''ssh'') True] @
            success_events ''Successfully set git signing type'' @
            [Exec (git_argv s ''user.signingkey'' (sshPath s)) True] @
            success_events ''Successfully set git signing key'' @
            [Exec (git_argv s ''commit.gpgsign'' ''true'') True] @
            success_events ''Successfully set git to sign commits by default'') s))"
  using assms unfolding setupSigning_flat Let_def
  by (simp split: if_splits) blast+

lemma almostDone_flat:
  "almostDone E s =
    (case os_ReadFile E (sshPath s @ ''.pub'') (world s) of
       None \<Rightarrow> (Some (PathError (sshPath s @ ''.pub'')),
                advance (world s) [ReadFile (sshPath s @ ''.pub'') None] s)
     | Some pub \<Rightarrow> (None,
         advance (world s)
           (ReadFile (sshPath s @ ''.pub'') (Some pub) # map Println (summary_lines pub)) s))"
  by (simp add: almostDone_def Let_def emit_def advance_def split: option.splits)

section \<open>The shape of a run\<close>

text \<open>
  Every run ends in one of six ways: the nil dereference, the form's error, the error of
  one of the three steps, or completion.
\<close>

lemma main_run [consumes 1, case_names nil_user form_error git_error ssh_error signing_error completed]:
  assumes "main E U w0 = (out, s)"
  obtains
    "promptForm E U (init w0) = NilDereference" "out = RuntimePanic" "s = init w0"
  | e s1 where "promptForm E U (init w0) = Return (Some e, s1)"
      "out = Exit1" "s = advance (world s1) (panic_events e) s1"
  | e s1 s2 where "promptForm E U (init w0) = Return (None, s1)"
      "setupGit E s1 = (Some e, s2)"
      "out = Exit1" "s = advance (world s2) (panic_events e) s2"
  | e s1 s2 s3 where "promptForm E U (init w0) = Return (None, s1)"
      "setupGit E s1 = (None, s2)" "\<not> ignoreSSH s2" "setupSSH E s2 = (Some e, s3)"
      "out = Exit1" "s = advance (world s3) (panic_events e) s3"
  | e s1 s2 s3 s4 where "promptForm E U (init w0) = Return (None, s1)"
      "setupGit E s1 = (None, s2)"
      "(if \<not> ignoreSSH s2 then setupSSH E s2 else (None, s2)) = (None, s3)"
      "signing s3" "setupSigning E s3 = (Some e, s4)"
      "out = Exit1" "s = advance (world s4) (panic_events e) s4"
  | s1 s2 s3 s4 where "promptForm E U (init w0) = Return (None, s1)"
      "setupGit E s1 = (None, s2)"
      "(if \<not> ignoreSSH s2 then setupSSH E s2 else (None, s2)) = (None, s3)"
      "(if signing s3 then setupSigning E s3 else (None, s3)) = (None, s4)"
      "out = Exit0"
      "s = (if \<not> ignoreSSH s4 \<or> signing s4
            then snd (almostDone E (s4\<lparr>sshPath := hard_coded_path\<rparr>))
            else success [''Finished!''] (s4\<lparr>sshPath := hard_coded_path\<rparr>))"
  using assms unfolding main_def hard_coded_path_def
  by (auto simp: panic_flat Let_def split: go.splits option.splits prod.splits if_splits)

section \<open>Observations of the effects of a step\<close>

lemma execs_append [simp]: "execs (t @ u) = execs t @ execs u"
  by (induction t rule: execs.induct) simp_all

lemma reads_append [simp]: "reads (t @ u) = reads t @ reads u"
  by (induction t rule: reads.induct) simp_all

lemma commands_append [simp]: "commands (t @ u) = commands t @ commands u"
  by (simp add: commands_def)

lemma keygens_append [simp]: "keygens (t @ u) = keygens t @ keygens u"
  by (simp add: keygens_def)

lemma git_failures_append [simp]: "git_failures (X @ Y) = git_failures X @ git_failures Y"
  by (simp add: git_failures_def)

lemma observe_success_events [simp]:
  "execs (success_events m) = []" "reads (success_events m) = []"
  "commands (success_events m) = []" "keygens (success_events m) = []"
  by (simp_all add: success_events_def commands_def keygens_def)

lemma observe_panic_events [simp]:
  "execs (panic_events e) = []" "reads (panic_events e) = []"
  "commands (panic_events e) = []" "keygens (panic_events e) = []"
  by (simp_all add: panic_events_def commands_def keygens_def)

lemma observe_nil [simp]:
  "commands [] = []" "keygens [] = []" "git_failures [] = []"
  by (simp_all add: commands_def keygens_def git_failures_def)

lemma observe_Exec [simp]:
  "commands (Exec a ok # t) = a # commands t"
  "keygens (Exec a ok # t) = (if is_keygen a then a # keygens t else keygens t)"
  by (simp_all add: commands_def keygens_def)

lemma observe_Println [simp]:
  "commands (Println x # t) = commands t" "keygens (Println x # t) = keygens t"
  by (simp_all add: commands_def keygens_def)

lemma kinds_of_argv [simp]:
  "is_git_config (git_argv s key v)" "\<not> is_keygen (git_argv s key v)"
  "\<not> is_ssh_add (git_argv s key v)"
  "\<not> is_git_config (keygen_argv s)" "is_keygen (keygen_argv s)"
  "\<not> is_ssh_add (keygen_argv s)" "\<not> is_signing_write (keygen_argv s)"
  "\<not> is_git_config (ssh_add_argv s)" "\<not> is_keygen (ssh_add_argv s)"
  "is_ssh_add (ssh_add_argv s)" "\<not> is_signing_write (ssh_add_argv s)"
  by (simp_all add: is_git_config_def is_keygen_def is_ssh_add_def is_signing_write_def
        git_argv_def keygen_argv_def ssh_add_argv_def)

lemma is_signing_write_git_argv [simp]:
  "is_signing_write (git_argv s key v) \<longleftrightarrow>
     key = ''gpg.format'' \<or> key = ''user.signingkey'' \<or> key = ''commit.gpgsign''"
  by (simp add: is_signing_write_def is_git_config_def git_argv_def)

lemma observe_signing_keygen_events [simp]:
  "execs (signing_keygen_events s) = (if ignoreSSH s then [(keygen_argv s, True)] else [])"
  "reads (signing_keygen_events s) = []"
  "commands (signing_keygen_events s) = (if ignoreSSH s then [keygen_argv s] else [])"
  "keygens (signing_keygen_events s) = (if ignoreSSH s then [keygen_argv s] else [])"
  by (simp_all add: signing_keygen_events_def)

lemma promptForm_trace:
  assumes "promptForm E U (init w0) = Return (err, s1)"
  shows "trace s1 = []"
  using assms
  by (auto simp: promptForm_def form_Run_def init_def split: option.splits if_splits)

section \<open>Evaluating a concrete run\<close>

lemmas run_simps =
  main_def promptForm_def form_Run_def submit_def validate_username_def validate_email_def
  init_def setupGit_flat setupSSH_flat setupSigning_flat almostDone_flat panic_flat
  success_flat advance_def cmd_ok_def cmd_world_def
  git_argv_def keygen_argv_def ssh_add_argv_def signing_keygen_events_def
  success_events_def panic_events_def Let_def
  machine_def ssh_keygen_def alice_def alice_home_def all_work_def git_broken_def
  no_agent_def no_agent_no_signing_def no_signing_key_def
  is_git_config_def is_keygen_def is_ssh_add_def is_signing_write_def

section \<open>Failed configuration commands\<close>

lemma setupGit_failures:
  assumes "setupGit E s = (err, s')" and "git_failures (execs (trace s)) = []"
  shows "if err = None then git_failures (execs (trace s')) = []
         else execs (trace s') \<noteq> [] \<and> git_failures (butlast (execs (trace s'))) = []"
  using setupGit_shape [OF assms(1)] assms(2)
  by (auto simp: git_failures_def butlast_append)

lemma setupSSH_failures:
  assumes "setupSSH E s = (err, s')" and "git_failures (execs (trace s)) = []"
  shows "if err = None then git_failures (execs (trace s')) = []
         else execs (trace s') \<noteq> [] \<and> git_failures (butlast (execs (trace s'))) = []"
  using setupSSH_shape [OF assms(1)] assms(2)
  by (auto simp: git_failures_def butlast_append)

lemma setupSigning_failures:
  assumes "setupSigning E s = (err, s')" and "git_failures (execs (trace s)) = []"
  shows "if err = None then git_failures (execs (trace s')) = []
         else execs (trace s') \<noteq> [] \<and> git_failures (butlast (execs (trace s'))) = []"
  using setupSigning_shape [OF assms(1)] assms(2)
  by (auto simp: git_failures_def butlast_append)


lemma observe_map_Println [simp]:
  "execs (map Println xs) = []" "reads (map Println xs) = []"
  by (induction xs) simp_all

lemma almostDone_observe [simp]:
  "execs (trace (snd (almostDone E s))) = execs (trace s)"
  "commands (trace (snd (almostDone E s))) = commands (trace s)"
  "keygens (trace (snd (almostDone E s))) = keygens (trace s)"
  by (simp_all add: almostDone_flat commands_def keygens_def comp_def split: option.splits)

lemma success_observe [simp]:
  "execs (trace (success [m] s)) = execs (trace s)"
  "reads (trace (success [m] s)) = reads (trace s)"
  "commands (trace (success [m] s)) = commands (trace s)"
  "keygens (trace (success [m] s)) = keygens (trace s)"
  by (simp_all add: success_flat)

lemma update_sshPath_observe [simp]:
  "trace (s\<lparr>sshPath := p\<rparr>) = trace s" "world (s\<lparr>sshPath := p\<rparr>) = world s"
  by simp_all

lemma ssh_stage_failures:
  assumes "(if \<not> ignoreSSH s then setupSSH E s else (None, s)) = (None, s')"
    and "git_failures (execs (trace s)) = []"
  shows "git_failures (execs (trace s')) = []"
  using assms setupSSH_failures [of E s None s'] by (auto split: if_splits)

lemma signing_stage_failures:
  assumes "(if signing s then setupSigning E s else (None, s)) = (None, s')"
    and "git_failures (execs (trace s)) = []"
  shows "git_failures (execs (trace s')) = []"
  using assms setupSigning_failures [of E s None s'] by (auto split: if_splits)

lemma main_failures:
  assumes "main E U w0 = (out, s)"
  shows "git_failures (execs (trace s)) = [] \<or>
         (out = Exit1 \<and> execs (trace s) \<noteq> [] \<and>
          git_failures (butlast (execs (trace s))) = [])"
  using assms
proof (cases rule: main_run)
  case nil_user
  then show ?thesis by (simp add: init_def)
next
  case (form_error e s1)
  then show ?thesis by (simp add: promptForm_trace)
next
  case (git_error e s1 s2)
  from git_error(1) have "git_failures (execs (trace s1)) = []"
    by (simp add: promptForm_trace)
  from setupGit_failures [OF git_error(2) this] git_error(3,4) show ?thesis by simp
next
  case (ssh_error e s1 s2 s3)
  from ssh_error(1) have "git_failures (execs (trace s1)) = []"
    by (simp add: promptForm_trace)
  from setupGit_failures [OF ssh_error(2) this]
  have "git_failures (execs (trace s2)) = []" by simp
  from setupSSH_failures [OF ssh_error(4) this] ssh_error(5,6) show ?thesis by simp
next
  case (signing_error e s1 s2 s3 s4)
  from signing_error(1) have "git_failures (execs (trace s1)) = []"
    by (simp add: promptForm_trace)
  from setupGit_failures [OF signing_error(2) this]
  have "git_failures (execs (trace s2)) = []" by simp
  from ssh_stage_failures [OF signing_error(3) this]
  have "git_failures (execs (trace s3)) = []" .
  from setupSigning_failures [OF signing_error(5) this] signing_error(6,7)
  show ?thesis by simp
next
  case (completed s1 s2 s3 s4)
  from completed(1) have "git_failures (execs (trace s1)) = []"
    by (simp add: promptForm_trace)
  from setupGit_failures [OF completed(2) this]
  have "git_failures (execs (trace s2)) = []" by simp
  from ssh_stage_failures [OF completed(3) this]
  have "git_failures (execs (trace s3)) = []" .
  from signing_stage_failures [OF completed(4) this]
  have "git_failures (execs (trace s4)) = []" .
  with completed(6) show ?thesis by simp
qed

text \<open>
  C5. In every run, when a git configuration command fails, no git configuration command
  is issued after it and the process exits with status 1.
\<close>

theorem C5_git_config_failure_halts:
  assumes "main E U w0 = (out, s)"
    and "execs (trace s) = pre @ (a, False) # post"
    and "is_git_config a"
  shows "out = Exit1 \<and> filter (\<lambda>c. is_git_config (fst c)) post = []"
proof -
  from main_failures [OF assms(1)] assms(2,3)
  have "out = Exit1" and last: "git_failures (butlast (pre @ (a, False) # post)) = []"
    by (auto simp: git_failures_def)
  have "post = []"
  proof (rule ccontr)
    assume "post \<noteq> []"
    with last assms(3) show False by (simp add: butlast_append git_failures_def)
  qed
  with \<open>out = Exit1\<close> show ?thesis by simp
qed

theorem C5_git_config_failure_halts_witness:
  "fst (main (machine alice_home no_signing_key) (alice\<lparr>select_signing := Signing_SSH\<rparr>) []) = Exit1 \<and>
   execs (trace (snd (main (machine alice_home no_signing_key) (alice\<lparr>select_signing := Signing_SSH\<rparr>) []))) =
     [([''git'', ''config'', ''--global'', ''user.name'', ''alice''], True),
      ([''git'', ''config'', ''--global'', ''user.email'', ''alice''], True),
      ([''ssh-keygen'', ''-t'', ''ed25519'', ''-f'', ''/home/alice/.ssh/id_ed25519'', ''-C'',
        ''alice@example.com''], True),
      ([''ssh-add'', ''/home/alice/.ssh/id_ed25519''], True),
      ([''git'', ''config'', ''--global'', ''gpg.format'', ''ssh''], True)] @
     ([''git'', ''config'', ''--global'', ''user.signingkey'', ''/home/alice/.ssh/id_ed25519''],
      False) # []"
proof -
  let ?r = "main (machine alice_home no_signing_key) (alice\<lparr>select_signing := Signing_SSH\<rparr>) []"
  have run: "?r = (fst ?r, snd ?r)" by simp
  have ex: "execs (trace (snd ?r)) =
     [([''git'', ''config'', ''--global'', ''user.name'', ''alice''], True),
      ([''git'', ''config'', ''--global'', ''user.email'', ''alice''], True),
      ([''ssh-keygen'', ''-t'', ''ed25519'', ''-f'', ''/home/alice/.ssh/id_ed25519'', ''-C'',
        ''alice@example.com''], True),
      ([''ssh-add'', ''/home/alice/.ssh/id_ed25519''], True),
      ([''git'', ''config'', ''--global'', ''gpg.format'', ''ssh''], True)] @
     ([''git'', ''config'', ''--global'', ''user.signingkey'', ''/home/alice/.ssh/id_ed25519''],
      False) # []"
    by (simp add: run_simps)
  have g: "is_git_config [''git'', ''config'', ''--global'', ''user.signingkey'', ''/home/alice/.ssh/id_ed25519'']"
    by (simp add: is_git_config_def)
  from C5_git_config_failure_halts [OF run ex g] ex show ?thesis by simp
qed

section \<open>What a step adds to a run\<close>

lemma agent_failures_simps [simp]:
  "agent_failures [] = []"
  "agent_failures (X @ Y) = agent_failures X @ agent_failures Y"
  "agent_failures ((a, ok) # X) =
     (if is_ssh_add a \<and> \<not> ok then (a, ok) # agent_failures X else agent_failures X)"
  by (simp_all add: agent_failures_def)

lemma all_commands_advance [simp]: "all_commands (advance w t s) = all_commands s"
  by (simp add: all_commands_def)

lemma setupGit_effect:
  assumes "setupGit E s = (err, s')"
  shows "(\<exists>w t. s' = advance w t s) \<and>
    reads (trace s') = reads (trace s) \<and>
    keygens (trace s') = keygens (trace s) \<and>
    agent_failures (execs (trace s')) = agent_failures (execs (trace s)) \<and>
    filter is_ssh_add (commands (trace s')) = filter is_ssh_add (commands (trace s)) \<and>
    filter is_signing_write (commands (trace s')) =
      filter is_signing_write (commands (trace s)) \<and>
    set (commands (trace s')) \<subseteq> set (commands (trace s)) \<union> set (all_commands s) \<and>
    set (trace s) \<subseteq> set (trace s')"
  using setupGit_shape [OF assms] by (auto simp: all_commands_def)

lemma setupSSH_effect:
  assumes "setupSSH E s = (err, s')"
  shows "(\<exists>w t. s' = advance w t s) \<and>
    reads (trace s') = reads (trace s) \<and>
    keygens (trace s') = keygens (trace s) @ [keygen_argv s] \<and>
    filter is_signing_write (commands (trace s')) =
      filter is_signing_write (commands (trace s)) \<and>
    set (commands (trace s')) \<subseteq> set (commands (trace s)) \<union> set (all_commands s) \<and>
    set (trace s) \<subseteq> set (trace s') \<and>
    (agent_failures (execs (trace s')) = agent_failures (execs (trace s)) \<or>
     err = None \<and>
     agent_failures (execs (trace s')) =
       agent_failures (execs (trace s)) @ [(ssh_add_argv s, False)] \<and>
     Println (Render warningColor [ssh_add_warning, sshPath s]) \<in> set (trace s'))"
  using setupSSH_shape [OF assms] by (auto simp: all_commands_def)

lemma setupSigning_effect:
  assumes "setupSigning E s = (err, s')"
  shows "(\<exists>w t. s' = advance w t s) \<and>
    reads (trace s') = reads (trace s) \<and>
    keygens (trace s') = keygens (trace s) @ (if ignoreSSH s then [keygen_argv s] else []) \<and>
    agent_failures (execs (trace s')) = agent_failures (execs (trace s)) \<and>
    filter is_ssh_add (commands (trace s')) = filter is_ssh_add (commands (trace s)) \<and>
    set (commands (trace s')) \<subseteq> set (commands (trace s)) \<union> set (all_commands s) \<and>
    set (trace s) \<subseteq> set (trace s') \<and>
    (err \<noteq> None \<and> \<not> ignoreSSH s \<longrightarrow> git_failures (execs (trace s')) \<noteq> [])"
  using setupSigning_shape [OF assms] by (auto simp: all_commands_def git_failures_def)


lemma almostDone_effect:
  "(\<exists>w t. snd (almostDone E s) = advance w t s) \<and>
   (\<exists>r. reads (trace (snd (almostDone E s))) = reads (trace s) @ [(sshPath s @ ''.pub'', r)]) \<and>
   set (trace s) \<subseteq> set (trace (snd (almostDone E s)))"
  by (auto simp: almostDone_flat split: option.splits)


lemma no_signing_write_before_keygen:
  assumes "filter is_signing_write (commands t) = []" and "keygens t \<noteq> []"
  shows "filter is_signing_write (takeWhile (\<lambda>a. \<not> is_keygen a) (commands (t @ u))) = []"
proof -
  from assms(2) obtain a where "a \<in> set (commands t)" and "\<not> \<not> is_keygen a"
    by (auto simp: keygens_def filter_empty_conv)
  then have "takeWhile (\<lambda>a. \<not> is_keygen a) (commands t @ commands u) =
      takeWhile (\<lambda>a. \<not> is_keygen a) (commands t)"
    by (rule takeWhile_append1)
  then have "takeWhile (\<lambda>a. \<not> is_keygen a) (commands (t @ u)) =
      takeWhile (\<lambda>a. \<not> is_keygen a) (commands t)"
    by simp
  moreover have "set (takeWhile (\<lambda>a. \<not> is_keygen a) (commands t)) \<subseteq> set (commands t)"
    by (auto dest: set_takeWhileD)
  ultimately show ?thesis using assms(1) by (auto simp: filter_empty_conv)
qed

section \<open>Key generation\<close>

lemma key_generation_after_identity_writes:
  assumes "promptForm E U (init w0) = Return (None, s1)"
    and "setupGit E s1 = (None, s2)"
    and "main E U w0 = (out, s)"
  shows "keygens (trace s2) = [] \<and>
    (\<not> ignoreSSH s1 \<longrightarrow>
       keygens (trace s) = [keygen_argv s1] \<and>
       keygens (trace (snd (setupSSH E s2))) = [keygen_argv s1] \<and>
       filter is_signing_write
         (takeWhile (\<lambda>a. \<not> is_keygen a) (commands (trace s))) = []) \<and>
    (ignoreSSH s1 \<and> signing s1 \<longrightarrow>
       keygens (trace s) = [keygen_argv s1] \<and>
       keygens (trace (snd (setupSigning E s2))) = [keygen_argv s1] \<and>
       filter is_ssh_add (commands (trace s)) = [])"
proof -
  note t1 = promptForm_trace [OF assms(1)]
  note g = setupGit_effect [OF assms(2)]
  from g obtain w2 t2 where s2: "s2 = advance w2 t2 s1" by auto
  from g t1 have k2: "keygens (trace s2) = []" by simp
  from assms(3) show ?thesis
  proof (cases rule: main_run)
    case nil_user
    with assms(1) show ?thesis by simp
  next
    case (form_error e s1')
    with assms(1) show ?thesis by simp
  next
    case (git_error e s1' s2')
    with assms(1,2) show ?thesis by simp
  next
    case (ssh_error e s1' s2' s3)
    from ssh_error(1) assms(1) have e1: "s1' = s1" by simp
    from ssh_error(2) assms(2) e1 have e2: "s2' = s2" by simp
    note ssh = ssh_error(4) [unfolded e2] and i = ssh_error(3) [unfolded e2]
    note e3 = setupSSH_effect [OF ssh]
    from e3 g t1 have "filter is_signing_write (commands (trace s3)) = []" by simp
    moreover from e3 k2 have "keygens (trace s3) \<noteq> []" by simp
    ultimately have "filter is_signing_write
        (takeWhile (\<lambda>a. \<not> is_keygen a) (commands (trace s3 @ panic_events e))) = []"
      by (rule no_signing_write_before_keygen)
    with e3 k2 s2 i ssh ssh_error(6) show ?thesis by simp
  next
    case (signing_error e s1' s2' s3 s4)
    from signing_error(1) assms(1) have e1: "s1' = s1" by simp
    from signing_error(2) assms(2) e1 have e2: "s2' = s2" by simp
    note stage = signing_error(3) [unfolded e2] and n = signing_error(5)
      and sg = signing_error(4)
    note e4 = setupSigning_effect [OF n]
    from e4 obtain w4 t4 where s4: "s4 = advance w4 t4 s3" by auto
    show ?thesis
    proof (cases "ignoreSSH s2")
      case True
      with stage have "s3 = s2" by simp
      with True e4 g t1 k2 s2 n sg signing_error(7) show ?thesis by simp
    next
      case False
      with stage have ssh: "setupSSH E s2 = (None, s3)" by simp
      note e3 = setupSSH_effect [OF ssh]
      from e3 g t1 have "filter is_signing_write (commands (trace s3)) = []" by simp
      moreover from e3 k2 have "keygens (trace s3) \<noteq> []" by simp
      ultimately have "filter is_signing_write
          (takeWhile (\<lambda>a. \<not> is_keygen a) (commands (trace s3 @ (t4 @ panic_events e)))) = []"
        by (rule no_signing_write_before_keygen)
      moreover from e3 False have "\<not> ignoreSSH s3" by auto
      ultimately show ?thesis using e3 e4 k2 s2 s4 False ssh signing_error(7) by simp
    qed
  next
    case (completed s1' s2' s3 s4)
    from completed(1) assms(1) have e1: "s1' = s1" by simp
    from completed(2) assms(2) e1 have e2: "s2' = s2" by simp
    note stage = completed(3) [unfolded e2] and stage' = completed(4)
    let ?s5 = "s4\<lparr>sshPath := hard_coded_path\<rparr>"
    show ?thesis
    proof (cases "ignoreSSH s2")
      case True
      with stage have s3: "s3 = s2" by simp
      show ?thesis
      proof (cases "signing s2")
        case True
        with stage' s3 have n: "setupSigning E s2 = (None, s4)" by simp
        from setupSigning_effect [OF n] \<open>ignoreSSH s2\<close> True g t1 k2 s2 n completed(6)
        show ?thesis by (auto split: if_splits)
      next
        case False
        with \<open>ignoreSSH s2\<close> k2 s2 show ?thesis by simp
      qed
    next
      case False
      with stage have ssh: "setupSSH E s2 = (None, s3)" by simp
      note e3 = setupSSH_effect [OF ssh]
      from e3 False have i3: "\<not> ignoreSSH s3" by auto
      have "\<exists>w4 t4. s4 = advance w4 t4 s3 \<and> keygens (trace s4) = keygens (trace s3)"
      proof (cases "signing s3")
        case True
        with stage' have "setupSigning E s3 = (None, s4)" by simp
        from setupSigning_effect [OF this] i3 show ?thesis by auto
      next
        case False
        with stage' have "s4 = advance (world s3) [] s3" by (simp add: advance_def)
        then show ?thesis by (metis advance_simps(8) append_Nil2)
      qed
      then obtain w4 t4 where s4: "s4 = advance w4 t4 s3"
        and k4: "keygens (trace s4) = keygens (trace s3)" by auto
      from s4 i3 completed(6)
      have s: "s = snd (almostDone E ?s5)" by simp
      from almostDone_effect [of E ?s5] obtain w5 t5 where
        s5: "snd (almostDone E ?s5) = advance w5 t5 ?s5" by auto
      from e3 g t1 have "filter is_signing_write (commands (trace s3)) = []" by simp
      moreover from e3 k2 have "keygens (trace s3) \<noteq> []" by simp
      ultimately have "filter is_signing_write
          (takeWhile (\<lambda>a. \<not> is_keygen a) (commands (trace s3 @ (t4 @ t5)))) = []"
        by (rule no_signing_write_before_keygen)
      moreover from s s5 s4 have "trace s = trace s3 @ (t4 @ t5)" by simp
      ultimately have "filter is_signing_write
          (takeWhile (\<lambda>a. \<not> is_keygen a) (commands (trace s))) = []"
        by simp
      moreover from s k4 have "keygens (trace s) = keygens (trace s3)" by simp
      ultimately show ?thesis using e3 k2 s2 False ssh by simp
    qed
  qed
qed


lemma keygens_none_early:
  assumes "main E U w0 = (out, s)"
    and "\<And>s1 s2. promptForm E U (init w0) = Return (None, s1) \<Longrightarrow> setupGit E s1 \<noteq> (None, s2)"
  shows "keygens (trace s) = []"
  using assms(1)
proof (cases rule: main_run)
  case nil_user
  then show ?thesis by (simp add: init_def)
next
  case (form_error e s1)
  then show ?thesis by (simp add: promptForm_trace)
next
  case (git_error e s1 s2)
  with promptForm_trace [OF git_error(1)] setupGit_effect [OF git_error(2)]
  show ?thesis by simp
next
  case (ssh_error e s1 s2 s3)
  with assms(2) show ?thesis by blast
next
  case (signing_error e s1 s2 s3 s4)
  with assms(2) show ?thesis by blast
next
  case (completed s1 s2 s3 s4)
  with assms(2) show ?thesis by blast
qed

text \<open>
  C4 (amended). In every run in which the form completes and both identity writes
  succeed: when skip-SSH is false, exactly one key generation is issued over the whole
  run, by the SSH step, and no signing configuration write precedes it; when skip-SSH is
  true and signing is true, exactly one key generation is issued, by the signing step,
  and the SSH step does not run (no \<open>ssh-add\<close> is issued). In every other run, that is
  when the user lookup or the form fails or an identity write fails, no key generation is
  issued.
\<close>

theorem C4_key_generation_once:
  assumes "main E U w0 = (out, s)"
  shows
   "(\<forall>s1 s2. promptForm E U (init w0) = Return (None, s1) \<and> setupGit E s1 = (None, s2) \<longrightarrow>
       keygens (trace s2) = [] \<and>
       (\<not> ignoreSSH s1 \<longrightarrow>
          keygens (trace s) = [keygen_argv s1] \<and>
          keygens (trace (snd (setupSSH E s2))) = [keygen_argv s1] \<and>
          filter is_signing_write
            (takeWhile (\<lambda>a. \<not> is_keygen a) (commands (trace s))) = []) \<and>
       (ignoreSSH s1 \<and> signing s1 \<longrightarrow>
          keygens (trace s) = [keygen_argv s1] \<and>
          keygens (trace (snd (setupSigning E s2))) = [keygen_argv s1] \<and>
          filter is_ssh_add (commands (trace s)) = [])) \<and>
    ((\<forall>s1 s2. promptForm E U (init w0) = Return (None, s1) \<longrightarrow> setupGit E s1 \<noteq> (None, s2)) \<longrightarrow>
       keygens (trace s) = [])"
proof (intro conjI allI impI)
  assume "\<forall>s1 s2. promptForm E U (init w0) = Return (None, s1) \<longrightarrow> setupGit E s1 \<noteq> (None, s2)"
  with assms show "keygens (trace s) = []" by (intro keygens_none_early) auto
qed (use key_generation_after_identity_writes [OF _ _ assms] in blast)+


theorem C4_counterexample:
  "ssh_value (select_ignoreSSH alice) = False \<and>
   fst (main (machine alice_home git_broken) alice []) = Exit1 \<and>
   keygens (trace (snd (main (machine alice_home git_broken) alice []))) = []"
  by (simp add: run_simps keygens_def commands_def)

theorem C4_key_generation_once_witness:
  "keygens (trace (snd (main (machine alice_home all_work) alice []))) =
     [[''ssh-keygen'', ''-t'', ''ed25519'', ''-f'', ''/home/alice/.ssh/id_ed25519'', ''-C'',
       ''alice@example.com'']] \<and>
   takeWhile (\<lambda>a. \<not> is_keygen a)
     (commands (trace (snd (main (machine alice_home all_work) alice [])))) =
     [[''git'', ''config'', ''--global'', ''user.name'', ''alice''],
      [''git'', ''config'', ''--global'', ''user.email'', ''alice'']] \<and>
   keygens (trace (snd (main (machine alice_home all_work)
       (alice\<lparr>select_ignoreSSH := No, select_signing := Signing_SSH\<rparr>) []))) =
     [[''ssh-keygen'', ''-t'', ''ed25519'', ''-f'', ''/home/alice/.ssh/id_ed25519'', ''-C'',
       ''alice@example.com'']] \<and>
   filter is_ssh_add (commands (trace (snd (main (machine alice_home all_work)
       (alice\<lparr>select_ignoreSSH := No, select_signing := Signing_SSH\<rparr>) [])))) = [] \<and>
   keygens (trace (snd (main (machine None all_work) alice []))) = []"
proof -
  let ?N = "machine None all_work"
  have m'': "main ?N alice [] = (fst (main ?N alice []), snd (main ?N alice []))"
    by simp
  have "\<forall>s1 s2. promptForm ?N alice (init []) = Return (None, s1) \<longrightarrow>
      setupGit ?N s1 \<noteq> (None, s2)"
    by (simp add: promptForm_def machine_def)
  with C4_key_generation_once [OF m'', THEN conjunct2]
  have z: "keygens (trace (snd (main ?N alice []))) = []" by blast
  let ?M = "machine alice_home all_work"
  let ?U = "alice\<lparr>select_ignoreSSH := No, select_signing := Signing_SSH\<rparr>"
  let ?s1 = "\<lparr>gitContext = ''--global'', username = ''alice'', email = ''alice@example.com'',
      ignoreSSH = False, sshPath = ''/home/alice/.ssh/id_ed25519'', signing = False,
      world = [], trace = []\<rparr> :: files state"
  let ?s1' = "\<lparr>gitContext = ''--global'', username = ''alice'', email = ''alice@example.com'',
      ignoreSSH = True, sshPath = ''/home/alice/.ssh/id_ed25519'', signing = True,
      world = [], trace = []\<rparr> :: files state"
  have p: "promptForm ?M alice (init []) = Return (None, ?s1)"
    by (simp add: run_simps)
  have g: "setupGit ?M ?s1 = (None, snd (setupGit ?M ?s1))"
    by (simp add: run_simps)
  have m: "main ?M alice [] = (fst (main ?M alice []), snd (main ?M alice []))"
    by simp
  have p': "promptForm ?M ?U (init []) = Return (None, ?s1')"
    by (simp add: run_simps)
  have g': "setupGit ?M ?s1' = (None, snd (setupGit ?M ?s1'))"
    by (simp add: run_simps)
  have m': "main ?M ?U [] = (fst (main ?M ?U []), snd (main ?M ?U []))"
    by simp
  note c = C4_key_generation_once [OF m, THEN conjunct1, rule_format, OF conjI [OF p g]]
  note c' = C4_key_generation_once [OF m', THEN conjunct1, rule_format, OF conjI [OF p' g']]
  from c have "keygens (trace (snd (main ?M alice []))) = [keygen_argv ?s1]" by simp
  moreover have "takeWhile (\<lambda>a. \<not> is_keygen a) (commands (trace (snd (main ?M alice [])))) =
     [[''git'', ''config'', ''--global'', ''user.name'', ''alice''],
      [''git'', ''config'', ''--global'', ''user.email'', ''alice'']]"
    by (simp add: run_simps commands_def)
  moreover from c'
  have "keygens (trace (snd (main ?M ?U []))) = [keygen_argv ?s1'] \<and>
    filter is_ssh_add (commands (trace (snd (main ?M ?U [])))) = []" by simp
  ultimately show ?thesis using z by (simp add: keygen_argv_def)
qed

section \<open>The run without SSH and signing\<close>

lemma completion_message_simps [simp]:
  "Println (Render successColor [''Finished!'']) \<in> set (success_events m) \<longleftrightarrow> m = ''Finished!''"
  "Println (Render successColor [''Finished!'']) \<notin> set (panic_events e)"
  by (auto simp: success_events_def panic_events_def)

text \<open>
  C6 (amended). When skip-SSH is true and signing is false, the run reads no file and
  issues nothing but git configuration writes, at most two. If both writes succeed there
  are exactly two, with the keys \<open>user.name\<close> and \<open>user.email\<close> in this order, the
  only thing printed after them is the completion message, and the process exits with
  status 0. If a write fails, it is the last command of the run: the fatal error is
  printed next, the process exits with status 1 and no completion message is printed.
\<close>

theorem C6_identity_only_run:
  assumes "promptForm E U (init w0) = Return (None, s1)"
    and "ignoreSSH s1" and "\<not> signing s1"
    and "main E U w0 = (out, s)"
  shows "reads (trace s) = [] \<and>
    filter (\<lambda>a. \<not> is_git_config a) (commands (trace s)) = [] \<and>
    length (commands (trace s)) \<le> 2 \<and>
    (fst (setupGit E s1) = None \<longrightarrow>
       out = Exit0 \<and>
       map (take 4) (commands (trace s)) =
         [[''git'', ''config'', gitContext s1, ''user.name''],
          [''git'', ''config'', gitContext s1, ''user.email'']] \<and>
       filter (\<lambda>c. \<not> snd c) (execs (trace s)) = [] \<and>
       trace s = trace (snd (setupGit E s1)) @ success_events ''Finished!'') \<and>
    (\<forall>e. fst (setupGit E s1) = Some e \<longrightarrow>
       out = Exit1 \<and>
       execs (trace s) \<noteq> [] \<and> \<not> snd (last (execs (trace s))) \<and>
       trace s = trace (snd (setupGit E s1)) @ panic_events e \<and>
       Println (Render successColor [''Finished!'']) \<notin> set (trace s))"
proof -
  have t1: "trace s1 = []" using assms(1) by (rule promptForm_trace)
  from assms(4) show ?thesis
  proof (cases rule: main_run)
    case nil_user
    with assms(1) show ?thesis by simp
  next
    case (form_error e s1')
    with assms(1) show ?thesis by simp
  next
    case (git_error e s1' s2)
    with assms(1) have "setupGit E s1 = (Some e, s2)" by simp
    from setupGit_shape [OF this] this git_error(3,4) t1 show ?thesis
      by auto
  next
    case (ssh_error e s1' s2 s3)
    with assms(1) have "setupGit E s1 = (None, s2)" by simp
    with ssh_error(3) assms(2) show ?thesis
      by (auto dest!: setupGit_shape)
  next
    case (signing_error e s1' s2 s3 s4)
    with assms(1) have "setupGit E s1 = (None, s2)" by simp
    with signing_error(3,4) assms(2,3) show ?thesis
      by (auto dest!: setupGit_shape)
  next
    case (completed s1' s2 s3 s4)
    with assms(1) have g: "setupGit E s1 = (None, s2)" by simp
    from setupGit_shape [OF g] obtain w where
      s2: "s2 = advance w ([Exec (git_argv s1 ''user.name'' (username s1)) True] @
            success_events ''Successfully set git username'' @
            [Exec (git_argv s1 ''user.email'' (username s1)) True] @
            success_events ''Successfully set git email'') s1"
      by auto
    from s2 assms(2,3) have v2: "ignoreSSH s2" "\<not> signing s2" by simp_all
    with completed(3) have "s3 = s2" by simp
    with completed(4) v2 have "s4 = s2" by simp
    with completed(5,6) assms(2,3) s2 g t1 show ?thesis
      by (simp add: success_flat git_argv_def is_git_config_def)
  qed
qed




theorem C6_counterexample:
  "ssh_value (select_ignoreSSH (alice\<lparr>select_ignoreSSH := No\<rparr>)) = True \<and>
   signing_value (select_signing (alice\<lparr>select_ignoreSSH := No\<rparr>)) = False \<and>
   fst (main (machine alice_home git_broken) (alice\<lparr>select_ignoreSSH := No\<rparr>) []) = Exit1 \<and>
   execs (trace (snd (main (machine alice_home git_broken)
       (alice\<lparr>select_ignoreSSH := No\<rparr>) []))) =
     [([''git'', ''config'', ''--global'', ''user.name'', ''alice''], False)] \<and>
   Println (Render successColor [''Finished!'']) \<notin>
     set (trace (snd (main (machine alice_home git_broken)
       (alice\<lparr>select_ignoreSSH := No\<rparr>) [])))"
  by (simp add: run_simps)

theorem C6_identity_only_run_witness:
  "fst (main (machine alice_home all_work) (alice\<lparr>select_ignoreSSH := No\<rparr>) []) = Exit0 \<and>
   reads (trace (snd (main (machine alice_home all_work)
       (alice\<lparr>select_ignoreSSH := No\<rparr>) []))) = [] \<and>
   map (take 4) (commands (trace (snd (main (machine alice_home all_work)
       (alice\<lparr>select_ignoreSSH := No\<rparr>) [])))) =
     [[''git'', ''config'', ''--global'', ''user.name''],
      [''git'', ''config'', ''--global'', ''user.email'']] \<and>
   fst (main (machine alice_home git_broken) (alice\<lparr>select_ignoreSSH := No\<rparr>) []) = Exit1 \<and>
   Println (Render successColor [''Finished!'']) \<notin>
     set (trace (snd (main (machine alice_home git_broken)
       (alice\<lparr>select_ignoreSSH := No\<rparr>) [])))"
proof -
  let ?B = "machine alice_home git_broken"
  let ?M = "machine alice_home all_work"
  let ?U = "alice\<lparr>select_ignoreSSH := No\<rparr>"
  let ?s1 = "\<lparr>gitContext = ''--global'', username = ''alice'', email = ''alice@example.com'',
      ignoreSSH = True, sshPath = ''/home/alice/.ssh/id_ed25519'', signing = False,
      world = [], trace = []\<rparr> :: files state"
  have p: "promptForm ?M ?U (init []) = Return (None, ?s1)"
    by (simp add: run_simps)
  have i: "ignoreSSH ?s1" and n: "\<not> signing ?s1" by simp_all
  have m: "main ?M ?U [] = (fst (main ?M ?U []), snd (main ?M ?U []))"
    by simp
  have g: "fst (setupGit ?M ?s1) = None"
    by (simp add: run_simps)
  from C6_identity_only_run [OF p i n m] g
  have "reads (trace (snd (main ?M ?U []))) = [] \<and>
    fst (main ?M ?U []) = Exit0 \<and>
    map (take 4) (commands (trace (snd (main ?M ?U [])))) =
      [[''git'', ''config'', gitContext ?s1, ''user.name''],
       [''git'', ''config'', gitContext ?s1, ''user.email'']]"
    by blast
  moreover have p': "promptForm ?B ?U (init []) = Return (None, ?s1)"
    by (simp add: run_simps)
  have m': "main ?B ?U [] = (fst (main ?B ?U []), snd (main ?B ?U []))"
    by simp
  have g': "fst (setupGit ?B ?s1) =
      Some (ExecError [''git'', ''config'', ''--global'', ''user.name'', ''alice''])"
    by (simp add: run_simps)
  from C6_identity_only_run [OF p' i n m'] g'
  have "fst (main ?B ?U []) = Exit1 \<and>
    Println (Render successColor [''Finished!'']) \<notin> set (trace (snd (main ?B ?U [])))"
    by blast
  ultimately show ?thesis by simp
qed

section \<open>A failed registration with the SSH agent\<close>

lemma setupSSH_agent_failure:
  assumes "setupSSH E s = (err, s')"
    and "agent_failures (execs (trace s')) \<noteq> agent_failures (execs (trace s))"
  shows "err = None \<and>
    (\<exists>t. trace s' = t @ [Exec (ssh_add_argv s) False,
                          Println (Render warningColor [ssh_add_warning, sshPath s])])"
proof -
  from setupSSH_shape [OF assms(1)] assms(2) obtain w where
    "err = None" and
    "s' = advance w ([Exec (keygen_argv s) True] @
            success_events ''Successfully generated ssh key'' @
            [Exec (ssh_add_argv s) False,
             Println (Render warningColor [ssh_add_warning, sshPath s])]) s"
    by auto
  then have "err = None" and
    "trace s' = (trace s @ [Exec (keygen_argv s) True] @
            success_events ''Successfully generated ssh key'') @
            [Exec (ssh_add_argv s) False,
             Println (Render warningColor [ssh_add_warning, sshPath s])]"
    by simp_all
  then show ?thesis by blast
qed

lemma almostDone_trace:
  "\<exists>rest. trace (snd (almostDone E s)) =
      trace s @ ReadFile (sshPath s @ ''.pub'') (os_ReadFile E (sshPath s @ ''.pub'') (world s)) # rest \<and>
    (\<forall>pub. os_ReadFile E (sshPath s @ ''.pub'') (world s) = Some pub \<longrightarrow>
       rest = map Println (summary_lines pub))"
  by (cases "os_ReadFile E (sshPath s @ ''.pub'') (world s)") (simp_all add: almostDone_flat)

text \<open>
  C7 (amended). If registration of the generated key with the SSH agent fails, the SSH
  setup step prints the warning right after the failed command and returns success, and
  the run goes on with the steps that follow it. When signing is selected, the signing
  step runs next, on the state the SSH step left; if it fails, the fatal error is printed
  and the process exits with status 1. Otherwise the summary step comes next: it reads a
  public key file, and if that read succeeds it prints the summary with the file's
  contents and the process exits with status 0.
\<close>

theorem C7_agent_failure_is_a_warning:
  assumes "main E U w0 = (out, s)"
    and "(b, False) \<in> set (execs (trace s))"
    and "is_ssh_add b"
  shows "\<exists>s1 s2 s3 err4 s4.
    promptForm E U (init w0) = Return (None, s1) \<and>
    setupGit E s1 = (None, s2) \<and> \<not> ignoreSSH s2 \<and>
    setupSSH E s2 = (None, s3) \<and>
    b = ssh_add_argv s1 \<and>
    (\<exists>t. trace s3 = t @ [Exec b False,
                          Println (Render warningColor [ssh_add_warning, sshPath s1])]) \<and>
    (if signing s3 then setupSigning E s3 else (None, s3)) = (err4, s4) \<and>
    (\<forall>e. err4 = Some e \<longrightarrow> out = Exit1 \<and> trace s = trace s4 @ panic_events e) \<and>
    (err4 = None \<longrightarrow>
       (\<exists>p rest. trace s = trace s4 @ ReadFile p (os_ReadFile E p (world s4)) # rest \<and>
          (\<forall>pub. os_ReadFile E p (world s4) = Some pub \<longrightarrow>
             rest = map Println (summary_lines pub) \<and> out = Exit0)))"
proof -
  have af: "agent_failures (execs (trace s)) \<noteq> []"
    using assms(2,3) by (force simp: agent_failures_def filter_empty_conv)
  from assms(2,3) have bin: "(b, False) \<in> set (agent_failures (execs (trace s)))"
    by (simp add: agent_failures_def)
  from assms(1) show ?thesis
  proof (cases rule: main_run)
    case nil_user
    with af show ?thesis by (simp add: init_def)
  next
    case (form_error e s1)
    with af show ?thesis by (simp add: promptForm_trace)
  next
    case (git_error e s1 s2)
    with af promptForm_trace [OF git_error(1)] setupGit_effect [OF git_error(2)]
    show ?thesis by simp
  next
    case (ssh_error e s1 s2 s3)
    with af promptForm_trace [OF ssh_error(1)] setupGit_effect [OF ssh_error(2)]
      setupSSH_effect [OF ssh_error(4)]
    show ?thesis by simp
  next
    case (signing_error e s1 s2 s3 s4)
    note t1 = promptForm_trace [OF signing_error(1)]
    note g = setupGit_effect [OF signing_error(2)]
    note n = setupSigning_effect [OF signing_error(5)]
    show ?thesis
    proof (cases "ignoreSSH s2")
      case True
      with signing_error(3) have "s3 = s2" by simp
      with af t1 g n signing_error(7) show ?thesis by simp
    next
      case False
      with signing_error(3) have ssh: "setupSSH E s2 = (None, s3)" by simp
      from g obtain w2 t2 where s2: "s2 = advance w2 t2 s1" by auto
      from af t1 g n signing_error(7)
      have a3: "agent_failures (execs (trace s3)) \<noteq> agent_failures (execs (trace s2))"
        by simp
      from setupSSH_agent_failure [OF ssh a3] s2
      have w: "\<exists>t. trace s3 = t @ [Exec (ssh_add_argv s1) False,
          Println (Render warningColor [ssh_add_warning, sshPath s1])]" by simp
      from setupSSH_effect [OF ssh] a3 t1 g s2
      have "agent_failures (execs (trace s3)) = [(ssh_add_argv s1, False)]" by auto
      with n signing_error(7)
      have "agent_failures (execs (trace s)) = [(ssh_add_argv s1, False)]" by simp
      with bin have b: "b = ssh_add_argv s1" by simp
      from signing_error(4,5)
      have st: "(if signing s3 then setupSigning E s3 else (None, s3)) = (Some e, s4)"
        by simp
      from signing_error(6,7) have "out = Exit1" "trace s = trace s4 @ panic_events e"
        by simp_all
      with signing_error(1,2) False ssh b w st show ?thesis by blast
    qed
  next
    case (completed s1 s2 s3 s4)
    note t1 = promptForm_trace [OF completed(1)]
    note g = setupGit_effect [OF completed(2)]
    have e4: "agent_failures (execs (trace s4)) = agent_failures (execs (trace s3)) \<and>
        ignoreSSH s4 = ignoreSSH s3"
    proof (cases "signing s3")
      case True
      with completed(4) have "setupSigning E s3 = (None, s4)" by simp
      from setupSigning_effect [OF this] show ?thesis by auto
    next
      case False
      with completed(4) show ?thesis by simp
    qed
    have es: "agent_failures (execs (trace s)) = agent_failures (execs (trace s4))"
      using completed(6) by (simp split: if_splits)
    show ?thesis
    proof (cases "ignoreSSH s2")
      case True
      with completed(3) have "s3 = s2" by simp
      with af t1 g e4 es show ?thesis by simp
    next
      case False
      with completed(3) have ssh: "setupSSH E s2 = (None, s3)" by simp
      from g obtain w2 t2 where s2: "s2 = advance w2 t2 s1" by auto
      from af t1 g e4 es
      have a3: "agent_failures (execs (trace s3)) \<noteq> agent_failures (execs (trace s2))"
        by simp
      from setupSSH_agent_failure [OF ssh a3] s2
      have w: "\<exists>t. trace s3 = t @ [Exec (ssh_add_argv s1) False,
          Println (Render warningColor [ssh_add_warning, sshPath s1])]" by simp
      from setupSSH_effect [OF ssh] a3 t1 g s2
      have "agent_failures (execs (trace s3)) = [(ssh_add_argv s1, False)]" by auto
      with e4 es
      have "agent_failures (execs (trace s)) = [(ssh_add_argv s1, False)]" by simp
      with bin have b: "b = ssh_add_argv s1" by simp
      from setupSSH_effect [OF ssh] False have "\<not> ignoreSSH s3" by auto
      with e4 completed(6)
      have s: "s = snd (almostDone E (s4\<lparr>sshPath := hard_coded_path\<rparr>))" by simp
      from almostDone_trace [of E "s4\<lparr>sshPath := hard_coded_path\<rparr>"] s completed(5)
      have r: "\<exists>p rest. trace s = trace s4 @ ReadFile p (os_ReadFile E p (world s4)) # rest \<and>
          (\<forall>pub. os_ReadFile E p (world s4) = Some pub \<longrightarrow>
             rest = map Println (summary_lines pub) \<and> out = Exit0)"
        by auto
      from completed(1,2) False ssh b w completed(4) r show ?thesis by blast
    qed
  qed
qed


theorem C7_counterexample:
  "([''ssh-add'', ''/home/alice/.ssh/id_ed25519''], False) \<in>
     set (execs (trace (snd (main (machine alice_home no_agent_no_signing)
       (alice\<lparr>select_signing := Signing_SSH\<rparr>) [])))) \<and>
   fst (main (machine alice_home no_agent_no_signing)
       (alice\<lparr>select_signing := Signing_SSH\<rparr>) []) = Exit1 \<and>
   reads (trace (snd (main (machine alice_home no_agent_no_signing)
       (alice\<lparr>select_signing := Signing_SSH\<rparr>) []))) = []"
  by (simp add: run_simps)

theorem C7_agent_failure_is_a_warning_witness:
  "([''ssh-add'', ''/home/alice/.ssh/id_ed25519''], False) \<in>
     set (execs (trace (snd (main (machine alice_home no_agent) alice mason_files)))) \<and>
   (\<exists>t. trace (snd (setupSSH (machine alice_home no_agent)
              (snd (setupGit (machine alice_home no_agent)
                 \<lparr>gitContext = ''--global'', username = ''alice'',
                  email = ''alice@example.com'', ignoreSSH = False,
                  sshPath = ''/home/alice/.ssh/id_ed25519'', signing = False,
                  world = mason_files, trace = []\<rparr>)))) =
      t @ [Exec [''ssh-add'', ''/home/alice/.ssh/id_ed25519''] False,
           Println (Render warningColor [ssh_add_warning, ''/home/alice/.ssh/id_ed25519''])]) \<and>
   fst (main (machine alice_home no_agent) alice mason_files) = Exit0 \<and>
   last (trace (snd (main (machine alice_home no_agent) alice mason_files))) =
     Println (Render infoColor [''eval \"$(ssh-agent -s)\"''])"
proof -
  let ?M = "machine alice_home no_agent"
  let ?b = "[''ssh-add'', ''/home/alice/.ssh/id_ed25519'']"
  let ?s1 = "\<lparr>gitContext = ''--global'', username = ''alice'', email = ''alice@example.com'',
      ignoreSSH = False, sshPath = ''/home/alice/.ssh/id_ed25519'', signing = False,
      world = mason_files, trace = []\<rparr> :: files state"
  have m: "main ?M alice mason_files =
      (fst (main ?M alice mason_files), snd (main ?M alice mason_files))"
    by simp
  have b: "(?b, False) \<in> set (execs (trace (snd (main ?M alice mason_files))))"
    by (simp add: run_simps mason_files_def)
  have a: "is_ssh_add ?b" by (simp add: is_ssh_add_def)
  have p: "promptForm ?M alice (init mason_files) = Return (None, ?s1)"
    by (simp add: run_simps)
  from C7_agent_failure_is_a_warning [OF m b a] obtain s1 s2 s3 where
    h: "promptForm ?M alice (init mason_files) = Return (None, s1)"
      "setupGit ?M s1 = (None, s2)" "setupSSH ?M s2 = (None, s3)"
      "\<exists>t. trace s3 = t @ [Exec ?b False,
          Println (Render warningColor [ssh_add_warning, sshPath s1])]"
    by blast
  from h(1) p have s1: "s1 = ?s1" by simp
  from h(2) have "s2 = snd (setupGit ?M s1)" by simp
  moreover from h(3) have "s3 = snd (setupSSH ?M s2)" by simp
  ultimately have "\<exists>t. trace (snd (setupSSH ?M (snd (setupGit ?M ?s1)))) =
      t @ [Exec ?b False,
           Println (Render warningColor [ssh_add_warning, ''/home/alice/.ssh/id_ed25519''])]"
    using h(4) s1 by simp
  moreover have "fst (main ?M alice mason_files) = Exit0 \<and>
    last (trace (snd (main ?M alice mason_files))) =
      Println (Render infoColor [''eval \"$(ssh-agent -s)\"''])"
    by (simp add: run_simps mason_files_def summary_lines_def)
  ultimately show ?thesis using b by blast
qed

section \<open>The key path\<close>

lemma promptForm_sshPath:
  assumes "promptForm E U (init w0) = Return (None, s1)"
  shows "\<exists>h. user_Current E = Some h \<and>
           sshPath s1 = (case input_sshPath U of None \<Rightarrow> default_path h | Some p \<Rightarrow> p)"
  using assms
  by (auto simp: promptForm_def form_Run_def default_path_def
        split: option.splits if_splits)

lemma main_commands:
  assumes "main E U w0 = (out, s)" and "promptForm E U (init w0) = Return (None, s1)"
  shows "set (commands (trace s)) \<subseteq> set (all_commands s1)"
proof -
  note t1 = promptForm_trace [OF assms(2)]
  from assms(1) show ?thesis
  proof (cases rule: main_run)
    case nil_user
    then show ?thesis by (simp add: init_def)
  next
    case (form_error e s1')
    with assms(2) show ?thesis by simp
  next
    case (git_error e s1' s2)
    from git_error(1) assms(2) have e1: "s1' = s1" by simp
    from setupGit_effect [OF git_error(2) [unfolded e1]] t1 git_error(4)
    show ?thesis by auto
  next
    case (ssh_error e s1' s2 s3)
    from ssh_error(1) assms(2) have e1: "s1' = s1" by simp
    note g = setupGit_effect [OF ssh_error(2) [unfolded e1]]
    from g have "all_commands s2 = all_commands s1" by auto
    with g setupSSH_effect [OF ssh_error(4)] t1 ssh_error(6)
    show ?thesis by auto
  next
    case (signing_error e s1' s2 s3 s4)
    from signing_error(1) assms(2) have e1: "s1' = s1" by simp
    note g = setupGit_effect [OF signing_error(2) [unfolded e1]]
    from g have a2: "all_commands s2 = all_commands s1" by auto
    have c3: "set (commands (trace s3)) \<subseteq> set (all_commands s1) \<and>
        all_commands s3 = all_commands s1"
    proof (cases "ignoreSSH s2")
      case True
      with signing_error(3) have "s3 = s2" by simp
      with g a2 t1 show ?thesis by auto
    next
      case False
      with signing_error(3) have "setupSSH E s2 = (None, s3)" by simp
      from setupSSH_effect [OF this] g a2 t1 show ?thesis by auto
    qed
    with setupSigning_effect [OF signing_error(5)] signing_error(7)
    show ?thesis by auto
  next
    case (completed s1' s2 s3 s4)
    from completed(1) assms(2) have e1: "s1' = s1" by simp
    note g = setupGit_effect [OF completed(2) [unfolded e1]]
    from g have a2: "all_commands s2 = all_commands s1" by auto
    have c3: "set (commands (trace s3)) \<subseteq> set (all_commands s1) \<and>
        all_commands s3 = all_commands s1"
    proof (cases "ignoreSSH s2")
      case True
      with completed(3) have "s3 = s2" by simp
      with g a2 t1 show ?thesis by auto
    next
      case False
      with completed(3) have "setupSSH E s2 = (None, s3)" by simp
      from setupSSH_effect [OF this] g a2 t1 show ?thesis by auto
    qed
    have c4: "set (commands (trace s4)) \<subseteq> set (all_commands s1)"
    proof (cases "signing s3")
      case True
      with completed(4) have "setupSigning E s3 = (None, s4)" by simp
      from setupSigning_effect [OF this] c3 show ?thesis by auto
    next
      case False
      with completed(4) c3 show ?thesis by simp
    qed
    with completed(6) show ?thesis by (simp split: if_splits)
  qed
qed

lemma git_argv_key [simp]: "git_argv s key v ! 3 = key"
  by (simp add: git_argv_def)

lemma disjE_set7:
  assumes "a \<in> set [x1, x2, x3, x4, x5, x6, x7]"
  obtains "a = x1" | "a = x2" | "a = x3" | "a = x4" | "a = x5" | "a = x6" | "a = x7"
  using assms by auto

text \<open>
  C9 (amended). Whenever key generation, registration with the agent or the signing
  configuration runs, the key path they use is the one the form returned: the pre-filled
  default \<open><home>/.ssh/id_ed25519\<close> when the user kept it, the text the user typed
  otherwise. The git step and the SSH step hand this path on unchanged. It is non-empty
  unless the user cleared the field, which the form accepts.
\<close>

theorem C9_key_path_from_form:
  assumes "promptForm E U (init w0) = Return (None, s1)"
    and "input_sshPath U \<noteq> Some []"
    and "main E U w0 = (out, s)"
    and "a \<in> set (commands (trace s))"
  shows "sshPath s1 \<noteq> [] \<and>
    (\<exists>h. user_Current E = Some h \<and>
       sshPath s1 = (case input_sshPath U of None \<Rightarrow> default_path h | Some p \<Rightarrow> p)) \<and>
    sshPath (snd (setupGit E s1)) = sshPath s1 \<and>
    sshPath (snd (setupSSH E (snd (setupGit E s1)))) = sshPath s1 \<and>
    (is_keygen a \<longrightarrow> a = keygen_argv s1) \<and>
    (is_ssh_add a \<longrightarrow> a = ssh_add_argv s1) \<and>
    (is_signing_write a \<and> a ! 3 = ''user.signingkey'' \<longrightarrow>
       a = git_argv s1 ''user.signingkey'' (sshPath s1))"
proof -
  from promptForm_sshPath [OF assms(1)] obtain h where
    h: "user_Current E = Some h"
      "sshPath s1 = (case input_sshPath U of None \<Rightarrow> default_path h | Some p \<Rightarrow> p)"
    by auto
  with assms(2) have ne: "sshPath s1 \<noteq> []"
    by (auto simp: default_path_def split: option.splits)
  obtain e2 s2 where g: "setupGit E s1 = (e2, s2)" by (cases "setupGit E s1")
  obtain e3 s3 where ssh: "setupSSH E s2 = (e3, s3)" by (cases "setupSSH E s2")
  from setupGit_effect [OF g] have p2: "sshPath s2 = sshPath s1" by auto
  from setupSSH_effect [OF ssh] p2 have p3: "sshPath s3 = sshPath s1" by auto
  from main_commands [OF assms(3,1)] assms(4) have "a \<in> set (all_commands s1)" by auto
  then have "(is_keygen a \<longrightarrow> a = keygen_argv s1) \<and>
    (is_ssh_add a \<longrightarrow> a = ssh_add_argv s1) \<and>
    (is_signing_write a \<and> a ! 3 = ''user.signingkey'' \<longrightarrow>
       a = git_argv s1 ''user.signingkey'' (sshPath s1))"
    unfolding all_commands_def by (elim disjE_set7) simp_all
  with ne h g ssh p2 p3 show ?thesis by simp
qed


theorem C9_counterexample:
  "promptForm (machine alice_home all_work) (alice\<lparr>input_sshPath := Some []\<rparr>) (init []) =
     Return (None,
       \<lparr>gitContext = ''--global'', username = ''alice'', email = ''alice@example.com'',
        ignoreSSH = False, sshPath = [], signing = False, world = [], trace = []\<rparr>) \<and>
   keygens (trace (snd (main (machine alice_home all_work)
       (alice\<lparr>input_sshPath := Some []\<rparr>) []))) =
     [[''ssh-keygen'', ''-t'', ''ed25519'', ''-f'', [], ''-C'', ''alice@example.com'']]"
  by (simp add: run_simps keygens_def commands_def)

theorem C9_key_path_from_form_witness:
  "keygens (trace (snd (main (machine alice_home all_work) alice []))) =
     [[''ssh-keygen'', ''-t'', ''ed25519'', ''-f'', ''/home/alice/.ssh/id_ed25519'', ''-C'',
       ''alice@example.com'']] \<and>
   ''/home/alice/.ssh/id_ed25519'' \<noteq> []"
proof -
  let ?M = "machine alice_home all_work"
  let ?s1 = "\<lparr>gitContext = ''--global'', username = ''alice'', email = ''alice@example.com'',
      ignoreSSH = False, sshPath = ''/home/alice/.ssh/id_ed25519'', signing = False,
      world = [], trace = []\<rparr> :: files state"
  let ?a = "[''ssh-keygen'', ''-t'', ''ed25519'', ''-f'', ''/home/alice/.ssh/id_ed25519'', ''-C'',
       ''alice@example.com'']"
  have p: "promptForm ?M alice (init []) = Return (None, ?s1)"
    by (simp add: run_simps)
  have i: "input_sshPath alice \<noteq> Some []" by (simp add: alice_def)
  have m: "main ?M alice [] = (fst (main ?M alice []), snd (main ?M alice []))"
    by simp
  have k: "keygens (trace (snd (main ?M alice []))) = [?a]"
    by (simp add: run_simps keygens_def commands_def)
  then have a: "?a \<in> set (commands (trace (snd (main ?M alice []))))"
    by (simp add: run_simps commands_def)
  from C9_key_path_from_form [OF p i m a] have "sshPath ?s1 \<noteq> []" by blast
  with k show ?thesis by simp
qed


section \<open>The identity writes\<close>

lemma setupGit_second_write:
  assumes "setupGit E s = (err, s')"
    and "cmd_ok E (git_argv s ''user.name'' (username s)) (world s)"
  shows "commands (trace s') =
    commands (trace s) @
      [git_argv s ''user.name'' (username s), git_argv s ''user.email'' (username s)]"
  using assms by (auto simp: setupGit_flat Let_def split: if_splits)

text \<open>
  C1. The claim asks that the second configuration command set \<open>user.email\<close> to the
  email collected by the form. For Alice, whose username is \<open>alice\<close> and whose email
  is \<open>alice@example.com\<close>, the second command sets \<open>user.email\<close> to \<open>alice\<close>.
\<close>

theorem C1_email_write_carries_username:
  "email (snd (main (machine alice_home all_work) (alice\<lparr>select_ignoreSSH := No\<rparr>) [])) =
     ''alice@example.com'' \<and>
   execs (trace (snd (main (machine alice_home all_work)
       (alice\<lparr>select_ignoreSSH := No\<rparr>) []))) =
     [([''git'', ''config'', ''--global'', ''user.name'', ''alice''], True),
      ([''git'', ''config'', ''--global'', ''user.email'', ''alice''], True)]"
  by (simp add: run_simps)

theorem C1_email_write_carries_username_witness:
  "commands (trace (snd (main (machine alice_home all_work)
       (alice\<lparr>select_ignoreSSH := No\<rparr>) []))) ! 1 \<noteq>
     [''git'', ''config'', ''--global'', ''user.email'',
      email (snd (main (machine alice_home all_work) (alice\<lparr>select_ignoreSSH := No\<rparr>) []))]"
  using C1_email_write_carries_username by (simp add: commands_def)

section \<open>The summary\<close>

lemma main_reads:
  assumes "main E U w0 = (out, s)"
  shows "reads (trace s) = [] \<or>
         out = Exit0 \<and> (\<exists>r. reads (trace s) = [(hard_coded_path @ ''.pub'', r)])"
  using assms
proof (cases rule: main_run)
  case nil_user
  then show ?thesis by (simp add: init_def)
next
  case (form_error e s1)
  then show ?thesis by (simp add: promptForm_trace)
next
  case (git_error e s1 s2)
  with promptForm_trace [OF git_error(1)] setupGit_effect [OF git_error(2)]
  show ?thesis by simp
next
  case (ssh_error e s1 s2 s3)
  with promptForm_trace [OF ssh_error(1)] setupGit_effect [OF ssh_error(2)]
    setupSSH_effect [OF ssh_error(4)]
  show ?thesis by simp
next
  case (signing_error e s1 s2 s3 s4)
  from promptForm_trace [OF signing_error(1)] setupGit_effect [OF signing_error(2)]
  have "reads (trace s2) = []" by simp
  moreover have "reads (trace s3) = reads (trace s2)"
  proof (cases "ignoreSSH s2")
    case True
    with signing_error(3) show ?thesis by simp
  next
    case False
    with signing_error(3) have "setupSSH E s2 = (None, s3)" by simp
    from setupSSH_effect [OF this] show ?thesis by simp
  qed
  ultimately show ?thesis
    using setupSigning_effect [OF signing_error(5)] signing_error(7) by simp
next
  case (completed s1 s2 s3 s4)
  from promptForm_trace [OF completed(1)] setupGit_effect [OF completed(2)]
  have "reads (trace s2) = []" by simp
  moreover have "reads (trace s3) = reads (trace s2)"
  proof (cases "ignoreSSH s2")
    case True
    with completed(3) show ?thesis by simp
  next
    case False
    with completed(3) have "setupSSH E s2 = (None, s3)" by simp
    from setupSSH_effect [OF this] show ?thesis by simp
  qed
  moreover have "reads (trace s4) = reads (trace s3)"
  proof (cases "signing s3")
    case True
    with completed(4) have "setupSigning E s3 = (None, s4)" by simp
    from setupSigning_effect [OF this] show ?thesis by simp
  next
    case False
    with completed(4) show ?thesis by simp
  qed
  ultimately have "reads (trace s4) = []" by simp
  with completed(5,6) almostDone_effect [of E "s4\<lparr>sshPath := hard_coded_path\<rparr>"]
  show ?thesis by (auto split: if_splits)
qed

text \<open>
  C2. The claim asks that the summary read \<open><sshKeyPath>.pub\<close> for the key path
  collected by the form and print that file's contents. On a machine that holds Mason's
  public key, Alice keeps the default path \<open>/home/alice/.ssh/id_ed25519\<close>; her key is
  generated there, and the summary reads \<open>/home/mason/.ssh/id_ed25519.pub\<close> and prints
  Mason's key.
\<close>

theorem C2_summary_reads_hard_coded_path:
  "keygens (trace (snd (main (machine alice_home all_work) alice mason_files))) =
     [[''ssh-keygen'', ''-t'', ''ed25519'', ''-f'', ''/home/alice/.ssh/id_ed25519'', ''-C'',
       ''alice@example.com'']] \<and>
   map_of (world (snd (main (machine alice_home all_work) alice mason_files)))
       ''/home/alice/.ssh/id_ed25519.pub'' =
     Some (''ssh-ed25519 AAAAC3Nz alice@example.com'' @ [CHR 0x0A]) \<and>
   reads (trace (snd (main (machine alice_home all_work) alice mason_files))) =
     [(''/home/mason/.ssh/id_ed25519.pub'', Some mason_key)] \<and>
   Println (Render infoColor [mason_key]) \<in>
     set (trace (snd (main (machine alice_home all_work) alice mason_files)))"
  by (simp add: run_simps keygens_def commands_def mason_files_def summary_lines_def)

theorem C2_summary_reads_hard_coded_path_witness:
  "map fst (reads (trace (snd (main (machine alice_home all_work) alice mason_files)))) \<noteq>
     [''/home/alice/.ssh/id_ed25519.pub'']"
  using C2_summary_reads_hard_coded_path by simp

text \<open>
  C3. The claim asks that an unreadable public key file end the run with a fatal error
  and a non-zero exit status. Alice skips the SSH step and asks for signing on a machine
  with no file at the hard-coded path: the read fails, nothing is printed after it, no
  fatal error is logged, and the process exits with status 0.
\<close>

theorem C3_unreadable_key_exits_zero:
  "fst (main (machine alice_home all_work)
       (alice\<lparr>select_ignoreSSH := No, select_signing := Signing_SSH\<rparr>) []) = Exit0 \<and>
   reads (trace (snd (main (machine alice_home all_work)
       (alice\<lparr>select_ignoreSSH := No, select_signing := Signing_SSH\<rparr>) []))) =
     [(''/home/mason/.ssh/id_ed25519.pub'', None)] \<and>
   last (trace (snd (main (machine alice_home all_work)
       (alice\<lparr>select_ignoreSSH := No, select_signing := Signing_SSH\<rparr>) []))) =
     ReadFile ''/home/mason/.ssh/id_ed25519.pub'' None \<and>
   fst (almostDone (machine alice_home all_work)
       \<lparr>gitContext = ''--global'', username = ''alice'', email = ''alice@example.com'',
        ignoreSSH = True, sshPath = ''/home/mason/.ssh/id_ed25519'', signing = True,
        world = [], trace = []\<rparr>) =
     Some (PathError ''/home/mason/.ssh/id_ed25519.pub'')"
  by (simp add: run_simps)

theorem C3_unreadable_key_exits_zero_witness:
  "fst (main (machine alice_home all_work)
       (alice\<lparr>select_ignoreSSH := No, select_signing := Signing_SSH\<rparr>) []) \<noteq> Exit1"
  using C3_unreadable_key_exits_zero by simp

section \<open>The current-user lookup\<close>

lemma main_nil_user:
  assumes "user_Current E = None"
  shows "main E U w0 = (RuntimePanic, init w0)"
  using assms by (simp add: main_def promptForm_def)

text \<open>
  C10. The claim asks that the dereference of the looked-up user be safe when the
  lookup fails. On a machine whose lookup fails, \<open>promptForm\<close> dereferences the nil user:
  the process ends in a runtime panic before the form is shown or any command is run.
\<close>

theorem C10_failed_lookup_is_dereferenced:
  "promptForm (machine None all_work) alice (init []) = NilDereference \<and>
   main (machine None all_work) alice [] = (RuntimePanic, init [])"
  by (simp add: main_def promptForm_def machine_def)

theorem C10_failed_lookup_is_dereferenced_witness:
  "fst (main (machine None all_work) alice []) \<noteq> Exit1 \<and>
   trace (snd (main (machine None all_work) alice [])) = []"
  using C10_failed_lookup_is_dereferenced by (simp add: init_def)


section \<open>Prompt validation\<close>

lemma strings_Contains_single: "strings_Contains s [c] \<longleftrightarrow> c \<in> set s"
  by (induction s) auto

text \<open>
  C8. The username validator accepts exactly the non-empty strings, and the email
  validator accepts exactly the strings in which both \<open>@\<close> and \<open>.\<close> occur: every
  other string is rejected.
\<close>

theorem C8_prompt_validation:
  "(validate_username name = None \<longleftrightarrow> name \<noteq> []) \<and>
   (validate_email mail = None \<longleftrightarrow> CHR ''@'' \<in> set mail \<and> CHR ''.'' \<in> set mail)"
  by (simp add: validate_username_def validate_email_def strings_Contains_single)

theorem C8_prompt_validation_witness:
  "validate_username ''alice'' = None \<and> validate_email ''alice@example.com'' = None \<and>
   validate_username [] \<noteq> None \<and> validate_email ''alice.example.com'' \<noteq> None \<and>
   validate_email ''alice@localhost'' \<noteq> None"
  using C8_prompt_validation [of "''alice''" "''alice@example.com''"]
    C8_prompt_validation [of "[]" "''alice.example.com''"]
    C8_prompt_validation [of "[]" "''alice@localhost''"]
  by simp

end
